theory Spec2Isabelle
  imports Complex_Main
begin

section \<open>Clock correction files (pint/observatory/clock\_file.py)\<close>

text \<open>
  A shallow embedding of the clock file module. Python floats are modelled as exact
  reals (rounding is not part of the model), so every identity below is an identity of
  real arithmetic. A clock correction is stored as its magnitude in microseconds, the
  unit \<open>evaluate\<close> converts to before it interpolates. Calls of the logger are not
  modelled. An exception is a value of type \<open>error\<close>, carrying the message where the
  source gives one.
\<close>

datatype error =
    ValueError string
  | RuntimeError string
  | NotImplementedError
  | TypeError string
  | IndexError string
  | UnboundLocalError string

text \<open>
  The attributes of a \<open>ClockFile\<close> object: \<open>time\<close> is \<open>self._time.mjd\<close>, \<open>clock\<close> is
  \<open>self._clock\<close> in microseconds, \<open>comments\<close> is \<open>None\<close> or a list whose entries are
  \<open>None\<close> or a string.
\<close>

record ClockFile =
  time :: "real list"
  clock :: "real list"
  filename :: string
  comments :: "string option list option"
  leading_comment :: "string option"

subsection \<open>The numpy operations the module calls\<close>

text \<open>\<open>np.diff(xs)\<close>: entry \<open>i\<close> is \<open>xs[i+1] - xs[i]\<close>.\<close>

definition diff :: "real list \<Rightarrow> real list" where
  "diff xs = map (\<lambda>(a, b). b - a) (zip xs (tl xs))"

text \<open>\<open>np.unique(xs)\<close>: the distinct values, sorted.\<close>

definition unique :: "real list \<Rightarrow> real list" where
  "unique xs = sort (remdups xs)"

text \<open>
  \<open>np.searchsorted(a, v, side)\<close> on a sorted array: with \<open>side="left"\<close> the first index
  \<open>i\<close> with \<open>v \<le> a[i]\<close>, with \<open>side="right"\<close> the first index \<open>i\<close> with \<open>v < a[i]\<close>
  (the length of the array when there is none).
\<close>

definition searchsorted_left :: "real list \<Rightarrow> real \<Rightarrow> nat" where
  "searchsorted_left a v = length (takeWhile (\<lambda>x. x < v) a)"

definition searchsorted_right :: "real list \<Rightarrow> real \<Rightarrow> nat" where
  "searchsorted_right a v = length (takeWhile (\<lambda>x. x \<le> v) a)"

text \<open>\<open>np.repeat(xs, r)\<close>: entry \<open>i\<close> of \<open>xs\<close> repeated \<open>r[i]\<close> times.\<close>

definition repeat :: "real list \<Rightarrow> nat list \<Rightarrow> real list" where
  "repeat xs r = concat (map (\<lambda>(x, k). replicate k x) (zip xs r))"

text \<open>\<open>np.where(bs)[0]\<close>: the indices of the true entries, ascending.\<close>

definition where_true :: "bool list \<Rightarrow> nat list" where
  "where_true bs = filter (\<lambda>i. bs ! i) [0..<length bs]"

text \<open>The slice \<open>xs[il:ir]\<close> for indices between \<open>0\<close> and \<open>len(xs)\<close>: empty when \<open>ir \<le> il\<close>.\<close>

definition slice :: "'a list \<Rightarrow> nat \<Rightarrow> nat \<Rightarrow> 'a list" where
  "slice xs il ir = take (ir - il) (drop il xs)"

text \<open>
  \<open>a[idx] = vals\<close> for an index array: the assignments in order, \<open>IndexError\<close> at an
  index beyond the end of \<open>a\<close>.
\<close>

fun assign_at :: "real list \<Rightarrow> (nat \<times> real) list \<Rightarrow> error + real list" where
  "assign_at a [] = Inr a"
| "assign_at a ((i, v) # ivs) =
     (if i < length a then assign_at (a[i := v]) ivs
      else Inl (IndexError ''index out of bounds''))"

text \<open>
  \<open>np.interp(x, xp, fp)\<close> at one query point, for sample points \<open>xp\<close> that are not empty
  and sorted (numpy does not check the order). Beyond the last sample the value is
  \<open>fp[-1]\<close>, before the first it is \<open>fp[0]\<close>. Otherwise \<open>j\<close> is the index numpy's search
  returns, the last index with \<open>xp[j] \<le> x\<close>, found here by its scan from index \<open>1\<close>; at
  the last index and at a sample point the value is \<open>fp[j]\<close>, elsewhere it is the line
  through the samples \<open>j\<close> and \<open>j+1\<close>.
\<close>

definition interp1 :: "real list \<Rightarrow> real list \<Rightarrow> real \<Rightarrow> real" where
  "interp1 xp fp x =
     (if x > last xp then last fp
      else if x < hd xp then hd fp
      else let j = length (takeWhile (\<lambda>a. a \<le> x) (tl xp)) in
        if j = length xp - 1 then fp ! j
        else if xp ! j = x then fp ! j
        else (fp ! (j + 1) - fp ! j) / (xp ! (j + 1) - xp ! j) * (x - xp ! j) + fp ! j)"

definition interp :: "real list \<Rightarrow> real list \<Rightarrow> real list \<Rightarrow> error + real list" where
  "interp x xp fp =
     (if length xp \<noteq> length fp then Inl (ValueError ''fp and xp are not of the same length.'')
      else if xp = [] then Inl (ValueError ''array of sample points is empty'')
      else Inr (map (interp1 xp fp) x))"

subsection \<open>ClockFile.evaluate\<close>

text \<open>A string between single quotes, as the messages of the source print a file name.\<close>

definition quoted :: "string \<Rightarrow> string" where
  "quoted s = [CHR 0x27] @ s @ [CHR 0x27]"

definition no_data_msg :: "ClockFile \<Rightarrow> string" where
  "no_data_msg self = ''No data points in clock file '' @ quoted (filename self)"

definition out_of_range_msg :: "ClockFile \<Rightarrow> string" where
  "out_of_range_msg self = ''Data points out of range in clock file '' @ quoted (filename self)"

text \<open>
  The two checks in the order of the source. With \<open>limits\<close> neither \<open>"warn"\<close> nor
  \<open>"error"\<close> an empty file falls through to \<open>self.time[0]\<close>, an \<open>IndexError\<close>.
\<close>

definition evaluate :: "ClockFile \<Rightarrow> real list \<Rightarrow> string \<Rightarrow> error + real list" where
  "evaluate self t limits =
     (if length (time self) = 0 \<and> limits = ''warn'' then Inr (map (\<lambda>_. 0) t)
      else if length (time self) = 0 \<and> limits = ''error'' then Inl (RuntimeError (no_data_msg self))
      else if time self = [] then Inl (IndexError ''index 0 is out of bounds'')
      else if (list_ex (\<lambda>x. x < hd (time self)) t \<or> list_ex (\<lambda>x. x > last (time self)) t)
              \<and> limits = ''error''
        then Inl (RuntimeError (out_of_range_msg self))
      else interp t (time self) (clock self))"

definition last_correction_mjd :: "ClockFile \<Rightarrow> real option" where
  \<comment> \<open>\<open>None\<close> stands for \<open>-np.inf\<close>\<close>
  "last_correction_mjd self = (if length (time self) = 0 then None else Some (last (time self)))"

subsection \<open>ConstructedClockFile\<close>

definition ConstructedClockFile :: "real list \<Rightarrow> real list \<Rightarrow> string \<Rightarrow> error + ClockFile" where
  "ConstructedClockFile mjd clk fname =
     (if length mjd \<noteq> length clk then Inl (ValueError ''MJDs and clock differ in length'')
      else Inr \<lparr>time = mjd, clock = clk, filename = fname,
                comments = None, leading_comment = None\<rparr>)"

subsection \<open>ClockFile.merge\<close>

text \<open>\<open>mjds[:-1][np.diff(mjds) == 0]\<close>: the timestamps equal to their successor.\<close>

definition discontinuities :: "real list \<Rightarrow> real list" where
  "discontinuities mjds = map fst (filter (\<lambda>(m, d). d = 0) (zip (butlast mjds) (diff mjds)))"

text \<open>
  The output breakpoints: the distinct timestamps of all inputs, sorted, each timestamp
  of \<open>all_discontinuities\<close> repeated twice.
\<close>

definition merged_mjds :: "ClockFile list \<Rightarrow> real list" where
  "merged_mjds clocks =
     (let all_mjds = map time clocks;
          all_discontinuities = remdups (concat (map (\<lambda>c. discontinuities (time c)) clocks));
          mjds = unique (concat all_mjds);
          r = fold (\<lambda>m r. r[searchsorted_left mjds m := 2]) all_discontinuities
                (replicate (length mjds) (1::nat))
      in repeat mjds r)"

text \<open>
  \<open>zl\<close>: \<open>z\<close> with \<open>zl[1:] &= ~z[:-1]\<close>, the left ends of the runs of equal timestamps;
  \<open>zr\<close>: \<open>z\<close> with \<open>zr[:-1] &= ~z[1:]\<close>, their right ends.
\<close>

definition zl :: "bool list \<Rightarrow> bool list" where
  "zl z = map (\<lambda>i. if i = 0 then z ! i else z ! i \<and> \<not> z ! (i - 1)) [0..<length z]"

definition zr :: "bool list \<Rightarrow> bool list" where
  "zr z = map (\<lambda>i. if i + 1 = length z then z ! i else z ! i \<and> \<not> z ! (i + 1)) [0..<length z]"

text \<open>The body of the loop over the clocks: the contribution of one clock at \<open>mjds\<close>.\<close>

definition this_corr :: "real list \<Rightarrow> ClockFile \<Rightarrow> error + real list" where
  "this_corr mjds c =
     (case evaluate c mjds ''warn'' of
        Inl e \<Rightarrow> Inl e
      | Inr tc \<Rightarrow>
          let z = map (\<lambda>d. d = 0) (diff (time c));
              ixl = where_true (zl z)
          in case assign_at tc (zip (map (\<lambda>i. searchsorted_left mjds (time c ! i)) ixl)
                                    (map (\<lambda>i. clock c ! i) ixl)) of
               Inl e \<Rightarrow> Inl e
             | Inr tc' \<Rightarrow>
                 let ixr = where_true (zr z)
                 in assign_at tc' (zip (map (\<lambda>i. searchsorted_right mjds (time c ! i)) ixr)
                                       (map (\<lambda>i. clock c ! (i + 1)) ixr)))"

fun sum_corr :: "real list \<Rightarrow> ClockFile list \<Rightarrow> real list \<Rightarrow> error + real list" where
  "sum_corr mjds [] corr = Inr corr"
| "sum_corr mjds (c # cs) corr =
     (case this_corr mjds c of
        Inl e \<Rightarrow> Inl e
      | Inr tc \<Rightarrow> sum_corr mjds cs (map (\<lambda>(a, b). a + b) (zip corr tc)))"

text \<open>\<open>max\<close> and \<open>min\<close> of a Python list that is not empty.\<close>

definition py_max :: "real list \<Rightarrow> real" where
  "py_max xs = fold max (tl xs) (hd xs)"

definition py_min :: "real list \<Rightarrow> real" where
  "py_min xs = fold min (tl xs) (hd xs)"

definition merged_filename :: "ClockFile list \<Rightarrow> string" where
  \<comment> \<open>the \<open>repr\<close> of the list of file names, for names without quotes or escapes\<close>
  "merged_filename clocks =
     ''Merged from ['' @ concat (map (\<lambda>(i, c). (if i = 0 then [] else '', '') @ quoted (filename c))
        (zip [0..<length clocks] clocks)) @ '']''"

definition merge :: "ClockFile list \<Rightarrow> bool \<Rightarrow> error + ClockFile" where
  "merge clocks trim =
     (if clocks = [] then Inl (ValueError ''need at least one array to concatenate'')
      else
        let mjds = merged_mjds clocks in
        case sum_corr mjds clocks (replicate (length mjds) 0) of
          Inl e \<Rightarrow> Inl e
        | Inr corr \<Rightarrow>
            if trim then
              if list_ex (\<lambda>c. time c = []) clocks then Inl (IndexError ''index 0 is out of bounds'')
              else
                let b = py_max (map (\<lambda>c. hd (time c)) clocks);
                    e = py_min (map (\<lambda>c. last (time c)) clocks);
                    il = searchsorted_left mjds b;
                    ir = searchsorted_right mjds e
                in ConstructedClockFile (slice mjds il ir) (slice corr il ir) (merged_filename clocks)
            else ConstructedClockFile mjds corr (merged_filename clocks))"

subsection \<open>Python strings\<close>

text \<open>
  The clock files are ASCII text: a string is a list of characters, and the
  classification of characters below is Python's on the ASCII range.
\<close>

definition is_space :: "char \<Rightarrow> bool" where
  \<comment> \<open>\<open>str.isspace\<close>: tab to carriage return, the separators \<open>0x1c\<close> to \<open>0x1f\<close>, space\<close>
  "is_space c = (let n = (of_char c :: nat) in (9 \<le> n \<and> n \<le> 13) \<or> (28 \<le> n \<and> n \<le> 31) \<or> n = 32)"

definition is_digit :: "char \<Rightarrow> bool" where
  "is_digit c = (let n = (of_char c :: nat) in 48 \<le> n \<and> n \<le> 57)"

definition digit_val :: "char \<Rightarrow> nat" where
  "digit_val c = of_char c - 48"

definition upper :: "string \<Rightarrow> string" where
  "upper s = map (\<lambda>c. let n = (of_char c :: nat) in if 97 \<le> n \<and> n \<le> 122 then char_of (n - 32) else c) s"

definition lower :: "string \<Rightarrow> string" where
  "lower s = map (\<lambda>c. let n = (of_char c :: nat) in if 65 \<le> n \<and> n \<le> 90 then char_of (n + 32) else c) s"

definition rstrip :: "string \<Rightarrow> string" where
  "rstrip s = rev (dropWhile is_space (rev s))"

definition strip :: "string \<Rightarrow> string" where
  "strip s = dropWhile is_space (rstrip s)"

definition startswith :: "string \<Rightarrow> string \<Rightarrow> bool" where
  "startswith s p = (take (length p) s = p)"

text \<open>\<open>s.split()\<close>: the maximal runs of characters that are not whitespace.\<close>

fun split_acc :: "string \<Rightarrow> string \<Rightarrow> string list" where
  "split_acc cur [] = (if cur = [] then [] else [cur])"
| "split_acc cur (c # cs) =
     (if is_space c then (if cur = [] then split_acc [] cs else cur # split_acc [] cs)
      else split_acc (cur @ [c]) cs)"

definition split :: "string \<Rightarrow> string list" where
  "split s = split_acc [] s"

text \<open>\<open>s.split(sep)\<close> for a separator of one character: the pieces between the separators.\<close>

fun split_sep_acc :: "char \<Rightarrow> string \<Rightarrow> string \<Rightarrow> string list" where
  "split_sep_acc sep cur [] = [cur]"
| "split_sep_acc sep cur (c # cs) =
     (if c = sep then cur # split_sep_acc sep [] cs else split_sep_acc sep (cur @ [c]) cs)"

definition split_sep :: "string \<Rightarrow> char \<Rightarrow> string list" where
  "split_sep s sep = split_sep_acc sep [] s"

subsection \<open>The builtin float on a string\<close>

text \<open>
  \<open>float(s)\<close> for the literals with a real value, after the grammar of the Python
  reference: whitespace stripped at both ends, an optional sign, digits (single
  underscores allowed between digits) with an optional point, or a point followed by
  digits, and an optional exponent. \<open>None\<close> is the \<open>ValueError\<close>. The literals \<open>inf\<close> and
  \<open>nan\<close> have no real value and are outside the model.
\<close>

fun digits_more :: "nat \<Rightarrow> nat \<Rightarrow> string \<Rightarrow> nat \<times> nat \<times> string" where
  "digits_more v n [] = (v, n, [])"
| "digits_more v n (c # cs) =
     (if is_digit c then digits_more (10 * v + digit_val c) (n + 1) cs
      else if c = CHR ''_'' then
        (case cs of
           [] \<Rightarrow> (v, n, c # cs)
         | d # ds \<Rightarrow> if is_digit d then digits_more (10 * v + digit_val d) (n + 1) ds
                     else (v, n, c # cs))
      else (v, n, c # cs))"

text \<open>A digit part: its value, its number of digits and the rest of the string.\<close>

definition digitpart :: "string \<Rightarrow> (nat \<times> nat \<times> string) option" where
  "digitpart s =
     (case s of
        [] \<Rightarrow> None
      | c # cs \<Rightarrow> if is_digit c then Some (digits_more (digit_val c) 1 cs) else None)"

definition number :: "string \<Rightarrow> (real \<times> string) option" where
  "number s =
     (case digitpart s of
        Some (iv, _, rest) \<Rightarrow>
          (case rest of
             [] \<Rightarrow> Some (real iv, [])
           | c # cs \<Rightarrow>
               if c = CHR ''.'' then
                 (case digitpart cs of
                    Some (fv, fn, rest') \<Rightarrow> Some (real iv + real fv / 10 ^ fn, rest')
                  | None \<Rightarrow> Some (real iv, cs))
               else Some (real iv, rest))
      | None \<Rightarrow>
          (case s of
             [] \<Rightarrow> None
           | c # cs \<Rightarrow>
               if c = CHR ''.'' then
                 (case digitpart cs of
                    Some (fv, fn, rest') \<Rightarrow> Some (real fv / 10 ^ fn, rest')
                  | None \<Rightarrow> None)
               else None))"

definition sign :: "string \<Rightarrow> bool \<times> string" where
  \<comment> \<open>whether the sign is a minus, and the rest\<close>
  "sign s =
     (case s of
        [] \<Rightarrow> (False, [])
      | c # cs \<Rightarrow> if c = CHR ''-'' then (True, cs) else if c = CHR ''+'' then (False, cs)
                  else (False, s))"

definition float_py :: "string \<Rightarrow> real option" where
  "float_py s =
     (let (neg, r0) = sign (strip s) in
      case number r0 of
        None \<Rightarrow> None
      | Some (m, r1) \<Rightarrow>
          (case r1 of
             [] \<Rightarrow> Some (if neg then - m else m)
           | c # cs \<Rightarrow>
               if c = CHR ''e'' \<or> c = CHR ''E'' then
                 (let (eneg, r2) = sign cs in
                  case digitpart r2 of
                    Some (ev, _, []) \<Rightarrow>
                      Some ((if neg then - m else m) * (if eneg then 1 / 10 ^ ev else 10 ^ ev))
                  | _ \<Rightarrow> None)
               else None))"

subsection \<open>TempoClockFile\<close>

definition tempo_standard_header :: string where
  "tempo_standard_header =
     ''   MJD       EECO-REF    NIST-REF NS      DATE    COMMENTS'' @ [CHR 0x0A] @
     ''=========    ========    ======== ==    ========  ========'' @ [CHR 0x0A]"

text \<open>
  The variables of \<open>TempoClockFile.__init__\<close> that the loop over the lines changes. The
  local variable \<open>mjd\<close> is unbound (\<open>None\<close>) before the first data line, and then holds
  \<open>None\<close> (\<open>Some None\<close>) or a float.
\<close>

record tempo_state =
  seen_header :: nat
  mjds :: "real list"
  clkcorrs :: "real list"
  self_comments :: "string option list"
  self_leading_comment :: "string option"
  mjd :: "real option option"

definition add_comment :: "tempo_state \<Rightarrow> string \<Rightarrow> tempo_state" where
  "add_comment st s =
     (if self_comments st \<noteq> [] then
        (case last (self_comments st) of
           None \<Rightarrow> st\<lparr>self_comments := butlast (self_comments st) @ [Some (rstrip s)]\<rparr>
         | Some c \<Rightarrow> st\<lparr>self_comments := butlast (self_comments st) @ [Some (c @ [CHR 0x0A] @ rstrip s)]\<rparr>)
      else
        (case self_leading_comment st of
           None \<Rightarrow> st\<lparr>self_leading_comment := Some (rstrip s)\<rparr>
         | Some c \<Rightarrow> st\<lparr>self_leading_comment := Some (c @ [CHR 0x0A] @ rstrip s)\<rparr>))"

text \<open>
  The MJD of a data line: the float in the columns \<open>[0:9)\<close>, or \<open>None\<close> when the field
  does not parse or its value is below \<open>39000\<close> and not \<open>0\<close>, or above \<open>100000\<close>.
\<close>

definition parse_mjd :: "string \<Rightarrow> real option" where
  "parse_mjd l =
     (case float_py (slice l 0 9) of
        None \<Rightarrow> None
      | Some x \<Rightarrow> if (x < 39000 \<and> x \<noteq> 0) \<or> x > 100000 then None else Some x)"

text \<open>
  The correction stored for a data line whose two correction fields parsed to
  \<open>clkcorr1\<close> and \<open>clkcorr2\<close>: a missing field is \<open>0.0\<close>, and \<open>818.8\<close> is taken off a
  first field above \<open>800.0\<close>.
\<close>

definition stored_clkcorr :: "real option \<Rightarrow> real option \<Rightarrow> real" where
  "stored_clkcorr clkcorr1 clkcorr2 =
     (let c1 = (case clkcorr1 of None \<Rightarrow> 0 | Some c \<Rightarrow> c);
          c2 = (case clkcorr2 of None \<Rightarrow> 0 | Some c \<Rightarrow> c);
          c1' = (if c1 > 800 then c1 - 818.8 else c1)
      in c2 - c1')"

text \<open>The site code of a line: the character at index \<open>34\<close> in lower case, if there is one.\<close>

definition csite_of :: "string \<Rightarrow> string option" where
  "csite_of l = (if 34 < length l then Some (lower [l ! 34]) else None)"

text \<open>
  A data line: the fields are parsed, a line of another site is skipped, a line without
  MJD or without any correction becomes a comment, and any other line adds a sample.
\<close>

definition data_line :: "string option \<Rightarrow> tempo_state \<Rightarrow> string \<Rightarrow> error + tempo_state" where
  "data_line obscode st l =
     (let m = parse_mjd l;
          clkcorr1 = float_py (slice l 9 21);
          clkcorr2 = float_py (slice l 21 33);
          csite = csite_of l;
          st1 = st\<lparr>mjd := Some m\<rparr>
      in if obscode \<noteq> None \<and> map_option lower obscode \<noteq> csite then Inr st1
         else
           (case m of
              None \<Rightarrow> Inr (add_comment st1 l)
            | Some x \<Rightarrow>
                if clkcorr1 = None \<and> clkcorr2 = None then Inr (add_comment st1 l)
                else Inr (add_comment
                       (st1\<lparr>mjds := mjds st1 @ [x],
                             clkcorrs := clkcorrs st1 @ [stored_clkcorr clkcorr1 clkcorr2],
                             self_comments := self_comments st1 @ [None]\<rparr>)
                       (drop 50 l))))"

text \<open>
  The body of the loop over the lines, in the order of the source: comment lines, the
  two header lines, \<open>INCLUDE\<close>, then the data lines.
\<close>

definition process_line :: "string option \<Rightarrow> tempo_state \<Rightarrow> string \<Rightarrow> error + tempo_state" where
  "process_line obscode st l =
     (if startswith l ''#'' then Inr (add_comment st l)
      else if seen_header st < 2 then
        (if map upper (split l) \<noteq> split (split_sep tempo_standard_header (CHR 0x0A) ! seen_header st)
         then Inl (ValueError ''TEMPO-format clock files should start with a standard header'')
         else Inr (st\<lparr>seen_header := seen_header st + 1\<rparr>))
      else if startswith l ''INCLUDE'' then Inl NotImplementedError
      else data_line obscode st l)"

fun tempo_loop :: "string option \<Rightarrow> tempo_state \<Rightarrow> string list \<Rightarrow> error + tempo_state" where
  "tempo_loop obscode st [] = Inr st"
| "tempo_loop obscode st (l # ls) =
     (case process_line obscode st l of
        Inl e \<Rightarrow> Inl e
      | Inr st' \<Rightarrow> tempo_loop obscode st' ls)"

definition tempo_init :: tempo_state where
  "tempo_init = \<lparr>seen_header = 0, mjds = [], clkcorrs = [], self_comments = [],
                  self_leading_comment = None, mjd = None\<rparr>"

text \<open>
  The statements after the loop. With \<open>bogus_last_correction\<close> and a sample, the source
  slices the local variable \<open>mjd\<close>, a float or \<open>None\<close>, which raises \<open>TypeError\<close>. Then the
  leading samples with MJD \<open>0\<close> are dropped from \<open>mjds\<close> and \<open>clkcorrs\<close>.
\<close>

definition tempo_finish :: "string \<Rightarrow> bool \<Rightarrow> tempo_state \<Rightarrow> error + ClockFile" where
  "tempo_finish fname bogus_last_correction st =
     (if bogus_last_correction \<and> length (mjds st) \<noteq> 0 then
        (case mjd st of
           None \<Rightarrow> Inl (UnboundLocalError (''local variable '' @ quoted ''mjd'' @ '' referenced before assignment''))
         | Some None \<Rightarrow> Inl (TypeError (quoted ''NoneType'' @ '' object is not subscriptable''))
         | Some (Some x) \<Rightarrow> Inl (TypeError (quoted ''float'' @ '' object is not subscriptable'')))
      else
        let k = length (takeWhile (\<lambda>x. x = 0) (mjds st))
        in Inr \<lparr>time = drop k (mjds st), clock = drop k (clkcorrs st), filename = fname,
                 comments = Some (self_comments st),
                 leading_comment = self_leading_comment st\<rparr>)"

text \<open>
  The constructor. The source is the list of the lines of the file (each with its line
  end), or \<open>None\<close> when the file cannot be opened: that error is caught and logged, and
  the object is built from the empty lists.
\<close>

definition TempoClockFile ::
  "string list option \<Rightarrow> string \<Rightarrow> string option \<Rightarrow> bool \<Rightarrow> error + ClockFile" where
  "TempoClockFile src fname obscode bogus_last_correction =
     (case src of
        None \<Rightarrow> tempo_finish fname bogus_last_correction tempo_init
      | Some ls \<Rightarrow>
          (case tempo_loop obscode tempo_init ls of
             Inl e \<Rightarrow> Inl e
           | Inr st \<Rightarrow> tempo_finish fname bogus_last_correction st))"

subsection \<open>Tempo2ClockFile\<close>

text \<open>
  \<open>hdrline_re.match\<close>, the pattern \<open>#\s*(\S+)\s+(\S+)\s+(\d+)?(.*)\<close>: the four groups, or
  \<open>None\<close> when the line does not match. The classes \<open>\s\<close> and \<open>\S\<close> are disjoint, so
  the greedy match is the only candidate.
\<close>

definition hdrline_re_match :: "string \<Rightarrow> (string \<times> string \<times> string option \<times> string) option" where
  "hdrline_re_match s =
     (case s of
        [] \<Rightarrow> None
      | c # r0 \<Rightarrow>
          if c \<noteq> CHR ''#'' then None
          else
            let r1 = dropWhile is_space r0;
                g1 = takeWhile (\<lambda>c. \<not> is_space c) r1;
                r2 = dropWhile (\<lambda>c. \<not> is_space c) r1;
                r3 = dropWhile is_space r2;
                g2 = takeWhile (\<lambda>c. \<not> is_space c) r3;
                r4 = dropWhile (\<lambda>c. \<not> is_space c) r3;
                r5 = dropWhile is_space r4;
                g3 = takeWhile is_digit r5;
                r6 = dropWhile is_digit r5
            in if g1 = [] \<or> takeWhile is_space r2 = [] \<or> g2 = [] \<or> takeWhile is_space r4 = []
               then None
               else Some (g1, g2, if g3 = [] then None else Some g3,
                          takeWhile (\<lambda>c. c \<noteq> CHR 0x0A) r6))"

text \<open>
  The optional exponent \<open>(?:[eEdD][-+]?\d+)?\<close> after the matched text \<open>m\<close>: the text
  with the exponent and the rest, or \<open>m\<close> and the rest unchanged.
\<close>

definition re_exponent :: "string \<Rightarrow> string \<Rightarrow> string \<times> string" where
  "re_exponent m r =
     (case r of
        [] \<Rightarrow> (m, [])
      | c # cs \<Rightarrow>
          if c = CHR ''e'' \<or> c = CHR ''E'' \<or> c = CHR ''d'' \<or> c = CHR ''D'' then
            (let (sg, r') = (case cs of
                               [] \<Rightarrow> ([], [])
                             | s # ss \<Rightarrow> if s = CHR ''-'' \<or> s = CHR ''+'' then ([s], ss) else ([], cs));
                 ds = takeWhile is_digit r'
             in if ds = [] then (m, r) else (m @ [c] @ sg @ ds, dropWhile is_digit r'))
          else (m, r))"

text \<open>
  A prefix matching \<open>[-+]?(?:\d+(?:\.\d*)?|\.\d+)(?:[eEdD][-+]?\d+)?\<close>: the longest match and
  the rest of the string.
\<close>

definition re_float :: "string \<Rightarrow> (string \<times> string) option" where
  "re_float s =
     (let (sg, r0) = (case s of
                        [] \<Rightarrow> ([], [])
                      | c # cs \<Rightarrow> if c = CHR ''-'' \<or> c = CHR ''+'' then ([c], cs) else ([], s));
          ds = takeWhile is_digit r0;
          r1 = dropWhile is_digit r0
      in if ds \<noteq> [] then
           (case r1 of
              [] \<Rightarrow> Some (re_exponent (sg @ ds) [])
            | c # cs \<Rightarrow>
                if c = CHR ''.'' then
                  Some (re_exponent (sg @ ds @ [c] @ takeWhile is_digit cs) (dropWhile is_digit cs))
                else Some (re_exponent (sg @ ds) r1))
         else
           (case r0 of
              [] \<Rightarrow> None
            | c # cs \<Rightarrow>
                if c = CHR ''.'' \<and> takeWhile is_digit cs \<noteq> [] then
                  Some (re_exponent (sg @ [c] @ takeWhile is_digit cs) (dropWhile is_digit cs))
                else None))"

text \<open>
  \<open>clkcorr_re.match\<close>: two floats separated by whitespace, then the rest of the line.
  The first float must end where the whitespace begins, which only its longest match
  can do.
\<close>

definition clkcorr_re_match :: "string \<Rightarrow> (string \<times> string \<times> string) option" where
  "clkcorr_re_match l =
     (case re_float (dropWhile is_space l) of
        None \<Rightarrow> None
      | Some (g1, r1) \<Rightarrow>
          if takeWhile is_space r1 = [] then None
          else
            (case re_float (dropWhile is_space r1) of
               None \<Rightarrow> None
             | Some (g2, r2) \<Rightarrow> Some (g1, g2, takeWhile (\<lambda>c. c \<noteq> CHR 0x0A) r2)))"

text \<open>
  The loop over the lines after the header, on the lists \<open>mjd\<close> and \<open>clk\<close> and on
  \<open>self.leading_comment\<close>. The source never appends to \<open>self.comments\<close>, so every comment
  is joined to the leading comment. \<open>float\<close> raises \<open>ValueError\<close> on an exponent written
  with \<open>d\<close> or \<open>D\<close>, which the pattern accepts.
\<close>

definition tempo2_add_comment :: "string \<Rightarrow> string \<Rightarrow> string" where
  "tempo2_add_comment lc s = lc @ [CHR 0x0A] @ strip s"

definition tempo2_line ::
  "real list \<times> real list \<times> string \<Rightarrow> string \<Rightarrow> error + real list \<times> real list \<times> string" where
  "tempo2_line st line =
     (case st of (ms, clk, lc) \<Rightarrow>
        if startswith line ''#'' then Inr (ms, clk, tempo2_add_comment lc line)
        else
          (case clkcorr_re_match line of
             None \<Rightarrow> Inr (ms, clk, tempo2_add_comment lc line)
           | Some (g1, g2, g3) \<Rightarrow>
               (case float_py g1 of
                  None \<Rightarrow> Inl (ValueError (''could not convert string to float: '' @ quoted g1))
                | Some m \<Rightarrow>
                    (case float_py g2 of
                       None \<Rightarrow> Inl (ValueError (''could not convert string to float: '' @ quoted g2))
                     | Some c \<Rightarrow> Inr (ms @ [m], clk @ [c], tempo2_add_comment lc g3)))))"

fun tempo2_loop ::
  "real list \<times> real list \<times> string \<Rightarrow> string list \<Rightarrow> error + real list \<times> real list \<times> string" where
  "tempo2_loop st [] = Inr st"
| "tempo2_loop st (l # ls) =
     (case tempo2_line st l of
        Inl e \<Rightarrow> Inl e
      | Inr st' \<Rightarrow> tempo2_loop st' ls)"

text \<open>
  The statements after the loop: the last sample is dropped with
  \<open>bogus_last_correction\<close>, then the leading samples with MJD \<open>0\<close>. The corrections of the
  file are seconds.
\<close>

definition tempo2_finish :: "string \<Rightarrow> bool \<Rightarrow> real list \<times> real list \<times> string \<Rightarrow> ClockFile" where
  "tempo2_finish fname bogus_last_correction st =
     (case st of (ms, clk, lc) \<Rightarrow>
        let ms1 = (if bogus_last_correction \<and> length ms \<noteq> 0 then butlast ms else ms);
            clk1 = (if bogus_last_correction \<and> length ms \<noteq> 0 then butlast clk else clk);
            k = length (takeWhile (\<lambda>x. x = 0) ms1)
        in \<lparr>time = drop k ms1, clock = map (\<lambda>c. c * 1000000) (drop k clk1), filename = fname,
              comments = Some [], leading_comment = Some lc\<rparr>)"

definition Tempo2ClockFile :: "string list option \<Rightarrow> string \<Rightarrow> bool \<Rightarrow> error + ClockFile" where
  "Tempo2ClockFile src fname bogus_last_correction =
     (case src of
        None \<Rightarrow> Inr (tempo2_finish fname bogus_last_correction ([], [], []))
      | Some ls \<Rightarrow>
          (case hdrline_re_match (case ls of [] \<Rightarrow> [] | hdrline # _ \<Rightarrow> hdrline) of
             None \<Rightarrow> Inl (ValueError ''Header line must start with # and contain two time scales'')
           | Some _ \<Rightarrow>
               (case tempo2_loop ([], [], []) (tl ls) of
                  Inl e \<Rightarrow> Inl e
                | Inr st \<Rightarrow> Inr (tempo2_finish fname bogus_last_correction st))))"

subsection \<open>ClockFile.read\<close>

text \<open>
  The keyword arguments that the constructors read, and the registry \<open>_formats\<close> that the
  metaclass fills: the classes with a \<open>format\<close> member, by the name of their format. The
  file system maps a file name to the lines of the file, if it can be opened.
\<close>

record kwargs =
  kw_obscode :: "string option"
  kw_bogus_last_correction :: bool

definition ClockFile_formats ::
  "(string \<Rightarrow> string list option) \<Rightarrow> string \<Rightarrow> (string \<Rightarrow> kwargs \<Rightarrow> error + ClockFile) option" where
  "ClockFile_formats fs =
     [''tempo2'' \<mapsto> (\<lambda>fname kw. Tempo2ClockFile (fs fname) fname (kw_bogus_last_correction kw)),
      ''tempo'' \<mapsto> (\<lambda>fname kw. TempoClockFile (fs fname) fname (kw_obscode kw)
                                (kw_bogus_last_correction kw))]"

definition out_of_order_msg :: "string \<Rightarrow> string \<Rightarrow> string" where
  "out_of_order_msg fname format =
     ''Clock file '' @ fname @ '' in format '' @ format @ '' appears to be out of order''"

definition not_defined_msg :: "string \<Rightarrow> string" where
  "not_defined_msg format = ''clock file format '' @ quoted format @ '' not defined''"

definition read ::
  "(string \<Rightarrow> string list option) \<Rightarrow> string \<Rightarrow> string \<Rightarrow> kwargs \<Rightarrow> error + ClockFile" where
  "read fs fname format kw =
     (case ClockFile_formats fs format of
        Some cls \<Rightarrow>
          (case cls fname kw of
             Inl e \<Rightarrow> Inl e
           | Inr r \<Rightarrow>
               if \<not> list_all (\<lambda>d. d \<ge> 0) (diff (time r))
               then Inl (ValueError (out_of_order_msg fname format))
               else Inr r)
      | None \<Rightarrow> Inl (ValueError (not_defined_msg format)))"

subsection \<open>ClockFile.write\_tempo\_clock\_file\<close>

text \<open>
  The argument \<open>obscode\<close> is any Python object. The function returns the text it writes.
  The formatting of a float (\<open>format_f width precision\<close> for \<open>{x:width.precisionf}\<close>) and
  the date of an MJD (\<open>strftime("%d-%b-%y")\<close>) are parameters. The message of the error
  is not an f-string in the source.
\<close>

datatype py_value = PyStr string | PyNone | PyInt int

definition tempo_data_line ::
  "(nat \<Rightarrow> nat \<Rightarrow> real \<Rightarrow> string) \<Rightarrow> (real \<Rightarrow> string) \<Rightarrow> string \<Rightarrow>
     real \<times> real \<times> string option \<Rightarrow> string" where
  "tempo_data_line format_f date obscode x =
     (case x of (m, corr, comment) \<Rightarrow>
        format_f 9 2 m @ format_f 12 3 0 @ format_f 12 3 corr @ '' '' @ obscode @ ''    '' @ date m
        @ (case comment of
             None \<Rightarrow> []
           | Some c \<Rightarrow>
               if c = [] then []
               else if startswith c [CHR 0x0A] then rstrip c
               else rstrip (''  '' @ c))
        @ [CHR 0x0A])"

definition write_tempo_clock_file ::
  "(nat \<Rightarrow> nat \<Rightarrow> real \<Rightarrow> string) \<Rightarrow> (real \<Rightarrow> string) \<Rightarrow> ClockFile \<Rightarrow> py_value \<Rightarrow>
     string option \<Rightarrow> error + string" where
  "write_tempo_clock_file format_f date self obscode extra_comments =
     (case obscode of
        PyStr s \<Rightarrow>
          if length s \<noteq> 1 then
            Inl (ValueError ''Invalid TEMPO obscode {obscode!r}, should be one printable character'')
          else
            let cs = (case comments self of
                        None \<Rightarrow> replicate (length (clock self)) (Some [])
                      | Some l \<Rightarrow> if l = [] then replicate (length (clock self)) (Some []) else l)
            in Inr (tempo_standard_header
                 @ (case extra_comments of None \<Rightarrow> [] | Some e \<Rightarrow> strip e @ [CHR 0x0A])
                 @ (case leading_comment self of None \<Rightarrow> [] | Some lc \<Rightarrow> lc @ [CHR 0x0A])
                 @ concat (map (tempo_data_line format_f date s)
                     (zip (time self) (zip (clock self) cs))))
      | _ \<Rightarrow> Inl (ValueError ''Invalid TEMPO obscode {obscode!r}, should be one printable character''))"

section \<open>Properties\<close>

subsection \<open>Evaluation\<close>

lemma interp1_before: "x < hd xp \<Longrightarrow> \<not> last xp < x \<Longrightarrow> interp1 xp fp x = hd fp"
  by (simp add: interp1_def)

lemma interp1_after: "last xp < x \<Longrightarrow> interp1 xp fp x = last fp"
  by (simp add: interp1_def)

lemma sorted_hd_le_last: "sorted xs \<Longrightarrow> xs \<noteq> [] \<Longrightarrow> hd xs \<le> (last xs :: real)"
  by (cases xs) (auto)

text \<open>
  Claim C3. \<open>evaluate\<close> with \<open>limits="error"\<close> fails on a series with no sample (the
  message of the empty check, so that check comes first), and on a series with samples
  it fails when a query time lies before the first or after the last timestamp. With
  \<open>limits="warn"\<close> an empty series gives a zero for every query time, and on a sorted
  series a query time before the first timestamp gives the first correction and one
  after the last timestamp gives the last correction.
\<close>

theorem evaluate_limits:
  "(time self = [] \<longrightarrow> evaluate self t ''error'' = Inl (RuntimeError (no_data_msg self)))
 \<and> (time self \<noteq> [] \<longrightarrow> (\<exists>x\<in>set t. x < hd (time self) \<or> last (time self) < x) \<longrightarrow>
      evaluate self t ''error'' = Inl (RuntimeError (out_of_range_msg self)))
 \<and> (time self = [] \<longrightarrow> evaluate self t ''warn'' = Inr (map (\<lambda>_. 0) t))
 \<and> (time self \<noteq> [] \<longrightarrow> sorted (time self) \<longrightarrow> length (time self) = length (clock self) \<longrightarrow>
      (\<exists>r. evaluate self t ''warn'' = Inr r \<and> length r = length t \<and>
        (\<forall>i<length t. (t ! i < hd (time self) \<longrightarrow> r ! i = hd (clock self)) \<and>
                        (last (time self) < t ! i \<longrightarrow> r ! i = last (clock self)))))"
proof (intro conjI impI)
  assume "time self = []"
  then show "evaluate self t ''error'' = Inl (RuntimeError (no_data_msg self))"
    by (simp add: evaluate_def)
next
  assume "time self \<noteq> []" and "\<exists>x\<in>set t. x < hd (time self) \<or> last (time self) < x"
  then show "evaluate self t ''error'' = Inl (RuntimeError (out_of_range_msg self))"
    by (auto simp: evaluate_def list_ex_iff)
next
  assume "time self = []"
  then show "evaluate self t ''warn'' = Inr (map (\<lambda>_. 0) t)"
    by (simp add: evaluate_def)
next
  assume ne: "time self \<noteq> []" and srt: "sorted (time self)"
    and len: "length (time self) = length (clock self)"
  have ev: "evaluate self t ''warn'' = Inr (map (interp1 (time self) (clock self)) t)"
  proof -
    from ne len have "clock self \<noteq> []" by auto
    with ne len show ?thesis by (simp add: evaluate_def interp_def)
  qed
  have "\<forall>i<length t. (t ! i < hd (time self) \<longrightarrow>
            map (interp1 (time self) (clock self)) t ! i = hd (clock self)) \<and>
          (last (time self) < t ! i \<longrightarrow>
            map (interp1 (time self) (clock self)) t ! i = last (clock self))"
    using sorted_hd_le_last [OF srt ne] by (auto simp: interp1_before interp1_after)
  with ev show "\<exists>r. evaluate self t ''warn'' = Inr r \<and> length r = length t \<and>
        (\<forall>i<length t. (t ! i < hd (time self) \<longrightarrow> r ! i = hd (clock self)) \<and>
                        (last (time self) < t ! i \<longrightarrow> r ! i = last (clock self)))"
    by simp
qed

theorem evaluate_limits_witness:
  "evaluate \<lparr>time = [], clock = [], filename = ''e.clk'', comments = None, leading_comment = None\<rparr>
      [1, 2] ''error''
     = Inl (RuntimeError (no_data_msg \<lparr>time = [], clock = [], filename = ''e.clk'',
          comments = None, leading_comment = None\<rparr>))
   \<and> evaluate \<lparr>time = [1, 2, 2, 3], clock = [10, 20, 30, 40], filename = ''a.clk'',
         comments = None, leading_comment = None\<rparr> [0, 4] ''error''
     = Inl (RuntimeError (out_of_range_msg \<lparr>time = [1, 2, 2, 3], clock = [10, 20, 30, 40],
          filename = ''a.clk'', comments = None, leading_comment = None\<rparr>))
   \<and> evaluate \<lparr>time = [], clock = [], filename = ''e.clk'', comments = None, leading_comment = None\<rparr>
      [1, 2] ''warn'' = Inr [0, 0]
   \<and> (\<exists>r. evaluate \<lparr>time = [1, 2, 2, 3], clock = [10, 20, 30, 40], filename = ''a.clk'',
         comments = None, leading_comment = None\<rparr> [0, 4] ''warn'' = Inr r
        \<and> length r = 2 \<and> r ! 0 = 10 \<and> r ! 1 = 40)"
proof -
  let ?E = "\<lparr>time = [], clock = [], filename = ''e.clk'', comments = None,
             leading_comment = None\<rparr>"
  let ?A = "\<lparr>time = [1, 2, 2, 3], clock = [10, 20, 30, 40], filename = ''a.clk'',
             comments = None, leading_comment = None\<rparr>"
  note e = evaluate_limits [of ?E "[1, 2]"]
  note a = evaluate_limits [of ?A "[0, 4]"]
  have c1: "evaluate ?E [1, 2] ''error'' = Inl (RuntimeError (no_data_msg ?E))"
    using e by simp
  have c2: "evaluate ?A [0, 4] ''error'' = Inl (RuntimeError (out_of_range_msg ?A))"
    using a by simp
  have c3: "evaluate ?E [1, 2] ''warn'' = Inr [0, 0]"
    using e by simp
  from a obtain r where r: "evaluate ?A [0, 4] ''warn'' = Inr r" "length r = 2"
      "\<forall>i<2. ([0, 4] ! i < (1::real) \<longrightarrow> r ! i = 10) \<and> ((3::real) < [0, 4] ! i \<longrightarrow> r ! i = 40)"
    by auto
  from r(3) have "r ! 0 = 10" by auto
  moreover from r(3) have "r ! 1 = 40" by (auto dest: spec [of _ 1])
  ultimately show ?thesis using c1 c2 c3 r(1,2) by blast
qed

text \<open>
  Claim C1, at the input where the code departs from it. The series has the
  discontinuity \<open>20 \<rightarrow> 30\<close> at time \<open>2\<close> and the sample \<open>40\<close> at time \<open>3\<close>. The
  right-side fix writes \<open>30\<close> at the index \<open>searchsorted(bps, 2, side="right") = 3\<close>,
  the breakpoint after the discontinuity, so the merged series gives \<open>30\<close> at time
  \<open>5/2\<close>, where the input interpolates to \<open>35\<close>.
\<close>

theorem merge_overwrites_next_breakpoint:
  "merge [\<lparr>time = [1, 2, 2, 3], clock = [10, 20, 30, 40], filename = ''a.clk'',
            comments = None, leading_comment = None\<rparr>] True
     = Inr \<lparr>time = [1, 2, 2, 3], clock = [10, 20, 30, 30],
            filename = ''Merged from ['' @ quoted ''a.clk'' @ '']'',
            comments = None, leading_comment = None\<rparr>
   \<and> evaluate \<lparr>time = [1, 2, 2, 3], clock = [10, 20, 30, 30],
            filename = ''Merged from ['' @ quoted ''a.clk'' @ '']'',
            comments = None, leading_comment = None\<rparr> [5 / 2] ''warn'' = Inr [30]
   \<and> evaluate \<lparr>time = [1, 2, 2, 3], clock = [10, 20, 30, 40], filename = ''a.clk'',
            comments = None, leading_comment = None\<rparr> [5 / 2] ''warn'' = Inr [35]"
  by code_simp

text \<open>
  Claim C2, at the inputs where the code departs from it. Merging the single series of
  C1 without trimming changes its last correction from \<open>40\<close> to \<open>30\<close>; merging a single
  series that ends in a discontinuity raises \<open>IndexError\<close>.
\<close>

theorem merge_single_not_identity:
  "merge [\<lparr>time = [1, 2, 2, 3], clock = [10, 20, 30, 40], filename = ''a.clk'',
            comments = None, leading_comment = None\<rparr>] False
     = Inr \<lparr>time = [1, 2, 2, 3], clock = [10, 20, 30, 30],
            filename = ''Merged from ['' @ quoted ''a.clk'' @ '']'',
            comments = None, leading_comment = None\<rparr>
   \<and> merge [\<lparr>time = [1, 2, 2], clock = [10, 20, 30], filename = ''a.clk'',
            comments = None, leading_comment = None\<rparr>] False
     = Inl (IndexError ''index out of bounds'')"
  by code_simp

subsection \<open>Merging: the breakpoints and the trimmed domain\<close>

lemma sorted_takeWhile_filter:
  fixes xs :: "real list"
  assumes "\<And>x y. x \<le> y \<Longrightarrow> P y \<Longrightarrow> P x"
  shows "sorted xs \<Longrightarrow> takeWhile P xs = filter P xs"
proof (induction xs)
  case Nil
  then show ?case by simp
next
  case (Cons x xs)
  show ?case
  proof (cases "P x")
    case True
    with Cons show ?thesis by simp
  next
    case False
    from Cons.prems have "\<forall>y\<in>set xs. x \<le> y" by simp
    with False assms have "\<forall>y\<in>set xs. \<not> P y" by blast
    then have "filter P xs = []" by (simp add: filter_empty_conv)
    with False show ?thesis by simp
  qed
qed

lemma drop_filter_sorted:
  fixes xs :: "real list"
  shows "sorted xs \<Longrightarrow>
    drop (length (filter (\<lambda>x. x < b) xs)) (filter (\<lambda>x. x \<le> e) xs)
      = filter (\<lambda>x. b \<le> x \<and> x \<le> e) xs"
proof (induction xs)
  case Nil
  then show ?case by simp
next
  case (Cons x xs)
  from Cons.prems have le: "\<forall>y\<in>set xs. x \<le> y" and srt: "sorted xs" by simp_all
  show ?case
  proof (cases "x < b")
    case True
    show ?thesis
    proof (cases "x \<le> e")
      case True
      with \<open>x < b\<close> Cons.IH [OF srt] show ?thesis by simp
    next
      case False
      with le have "\<forall>y\<in>set xs. \<not> y \<le> e" by auto
      then have "filter (\<lambda>x. x \<le> e) xs = []" "filter (\<lambda>x. b \<le> x \<and> x \<le> e) xs = []"
        by (simp_all add: filter_empty_conv)
      with False \<open>x < b\<close> show ?thesis by simp
    qed
  next
    case False
    with le have nb: "\<forall>y\<in>set xs. \<not> y < b" by auto
    then have "filter (\<lambda>x. x < b) xs = []" by (simp add: filter_empty_conv)
    moreover from nb have "filter (\<lambda>x. b \<le> x \<and> x \<le> e) xs = filter (\<lambda>x. x \<le> e) xs"
      by (intro filter_cong) auto
    ultimately show ?thesis using False by simp
  qed
qed

lemma slice_searchsorted:
  assumes "sorted xs"
  shows "slice xs (searchsorted_left xs b) (searchsorted_right xs e)
           = filter (\<lambda>x. b \<le> x \<and> x \<le> e) xs"
proof -
  have l: "takeWhile (\<lambda>x. x < b) xs = filter (\<lambda>x. x < b) xs"
    using assms by (intro sorted_takeWhile_filter) auto
  have r: "takeWhile (\<lambda>x. x \<le> e) xs = filter (\<lambda>x. x \<le> e) xs"
    using assms by (intro sorted_takeWhile_filter) auto
  have "slice xs (searchsorted_left xs b) (searchsorted_right xs e)
      = drop (searchsorted_left xs b) (take (searchsorted_right xs e) xs)"
    by (simp add: slice_def drop_take)
  also have "take (searchsorted_right xs e) xs = takeWhile (\<lambda>x. x \<le> e) xs"
    unfolding searchsorted_right_def by (rule takeWhile_eq_take [symmetric])
  finally show ?thesis
    using drop_filter_sorted [OF assms, of b e] by (simp add: searchsorted_left_def l r)
qed

lemma repeat_Nil [simp]: "repeat [] r = []" "repeat xs [] = []"
  by (simp_all add: repeat_def)

lemma repeat_Cons [simp]: "repeat (x # xs) (k # r) = replicate k x @ repeat xs r"
  by (simp add: repeat_def)

lemma set_repeat_subset: "set (repeat xs r) \<subseteq> set xs"
proof (induction xs arbitrary: r)
  case Nil
  then show ?case by simp
next
  case (Cons x xs)
  then show ?case by (cases r) (auto split: if_splits)
qed

lemma set_repeat:
  "length r = length xs \<Longrightarrow> \<forall>k\<in>set r. 0 < k \<Longrightarrow> set (repeat xs r) = set xs"
proof (induction xs arbitrary: r)
  case Nil
  then show ?case by simp
next
  case (Cons x xs)
  then show ?case by (cases r) auto
qed

lemma sorted_repeat: "sorted xs \<Longrightarrow> sorted (repeat xs r)"
proof (induction xs arbitrary: r)
  case Nil
  then show ?case by simp
next
  case (Cons x xs)
  show ?case
  proof (cases r)
    case Nil
    then show ?thesis by simp
  next
    case (Cons k r')
    from Cons.prems have "\<forall>y\<in>set xs. x \<le> y" "sorted xs" by simp_all
    with set_repeat_subset [of xs r'] Cons.IH [of r'] Cons show ?thesis
      by (auto simp: sorted_append)
  qed
qed

lemma fold_update_length: "length (fold (\<lambda>m r. r[f m := v]) ds r0) = length r0"
  by (induction ds arbitrary: r0) simp_all

lemma fold_update_pos:
  "\<forall>k\<in>set r0. 0 < k \<Longrightarrow> \<forall>k\<in>set (fold (\<lambda>m r. r[f m := (2::nat)]) ds r0). 0 < k"
proof (induction ds arbitrary: r0)
  case Nil
  then show ?case by simp
next
  case (Cons d ds)
  have "\<forall>k\<in>set (r0[f d := 2]). 0 < k"
    using Cons.prems by (auto dest!: set_update_subset_insert [THEN subsetD])
  from Cons.IH [OF this] show ?case by simp
qed

lemma merged_mjds_sorted: "sorted (merged_mjds clocks)"
  unfolding merged_mjds_def Let_def unique_def by (rule sorted_repeat) (rule sorted_sort)

lemma merged_mjds_set: "set (merged_mjds clocks) = (\<Union>c\<in>set clocks. set (time c))"
proof -
  let ?m = "unique (concat (map time clocks))"
  let ?r = "fold (\<lambda>m r. r[searchsorted_left ?m m := 2])
              (remdups (concat (map (\<lambda>c. discontinuities (time c)) clocks)))
              (replicate (length ?m) (1::nat))"
  have "length ?r = length ?m" by (simp only: fold_update_length length_replicate)
  moreover have "\<forall>k\<in>set ?r. 0 < k" by (rule fold_update_pos) simp
  ultimately have a: "set (repeat ?m ?r) = set ?m" by (rule set_repeat)
  have b: "set ?m = (\<Union>c\<in>set clocks. set (time c))" by (simp add: unique_def)
  have c: "merged_mjds clocks = repeat ?m ?r" by (simp only: merged_mjds_def Let_def)
  show ?thesis by (simp only: c a b)
qed

lemma length_takeWhile_less:
  "\<exists>x\<in>set xs. \<not> P x \<Longrightarrow> length (takeWhile P xs) < length xs"
  by (induction xs) auto

lemma searchsorted_left_less: "v \<in> set a \<Longrightarrow> searchsorted_left a v < length a"
  unfolding searchsorted_left_def by (rule length_takeWhile_less) auto

lemma searchsorted_right_less: "\<exists>x\<in>set a. v < x \<Longrightarrow> searchsorted_right a v < length a"
  unfolding searchsorted_right_def by (rule length_takeWhile_less) (auto simp: not_le)

lemma assign_at_ok:
  "\<forall>(i, v)\<in>set ivs. i < length a \<Longrightarrow> \<exists>a'. assign_at a ivs = Inr a' \<and> length a' = length a"
proof (induction ivs arbitrary: a)
  case Nil
  then show ?case by simp
next
  case (Cons iv ivs)
  obtain i v where iv: "iv = (i, v)" by (cases iv)
  from Cons.prems iv have "i < length a" "\<forall>(j, w)\<in>set ivs. j < length (a[i := v])" by auto
  with Cons.IH [of "a[i := v]"] iv show ?case by simp
qed

lemma length_diff [simp]: "length (diff xs) = length xs - 1"
  by (simp add: diff_def)

lemma discontinuities_mem:
  assumes "i < length xs - 1" and "diff xs ! i = 0"
  shows "xs ! i \<in> set (discontinuities xs)"
proof -
  have "(butlast xs ! i, diff xs ! i) \<in> set (zip (butlast xs) (diff xs))"
    using assms(1) by (auto simp: set_zip)
  moreover have "butlast xs ! i = xs ! i" using assms(1) by (simp add: nth_butlast)
  ultimately have "(xs ! i, 0) \<in> set (zip (butlast xs) (diff xs))" using assms(2) by simp
  then show ?thesis unfolding discontinuities_def by force
qed

lemma where_true_zl: "i \<in> set (where_true (zl z)) \<Longrightarrow> i < length z \<and> z ! i"
  by (auto simp: where_true_def zl_def split: if_splits)

lemma where_true_zr: "i \<in> set (where_true (zr z)) \<Longrightarrow> i < length z \<and> z ! i"
  by (auto simp: where_true_def zr_def split: if_splits)

lemma evaluate_warn_ok:
  "length (time c) = length (clock c) \<Longrightarrow>
     \<exists>tc. evaluate c bps ''warn'' = Inr tc \<and> length tc = length bps"
  by (cases "time c = []") (auto simp: evaluate_def interp_def)

lemma this_corr_ok:
  assumes len: "length (time c) = length (clock c)"
    and sub: "set (time c) \<subseteq> set bps"
    and later: "\<forall>t\<in>set (discontinuities (time c)). \<exists>t'\<in>set bps. t < t'"
  shows "\<exists>tc. this_corr bps c = Inr tc \<and> length tc = length bps"
proof -
  let ?z = "map (\<lambda>d. d = 0) (diff (time c))"
  let ?ixl = "where_true (zl ?z)"
  let ?ixr = "where_true (zr ?z)"
  from evaluate_warn_ok [OF len] obtain tc
    where tc: "evaluate c bps ''warn'' = Inr tc" "length tc = length bps" by blast
  have "\<forall>(i, v)\<in>set (zip (map (\<lambda>i. searchsorted_left bps (time c ! i)) ?ixl)
                          (map (\<lambda>i. clock c ! i) ?ixl)). i < length tc"
  proof (clarify)
    fix j v
    assume "(j, v) \<in> set (zip (map (\<lambda>i. searchsorted_left bps (time c ! i)) ?ixl)
                               (map (\<lambda>i. clock c ! i) ?ixl))"
    then have "j \<in> set (map (\<lambda>i. searchsorted_left bps (time c ! i)) ?ixl)"
      by (rule set_zip_leftD)
    then obtain i where i: "i \<in> set ?ixl" "j = searchsorted_left bps (time c ! i)" by auto
    from where_true_zl [OF i(1)] have "i < length (time c) - 1" by simp
    then have "time c ! i \<in> set (time c)" by simp
    with sub have "time c ! i \<in> set bps" by blast
    with i(2) tc(2) show "j < length tc" by (simp add: searchsorted_left_less)
  qed
  from assign_at_ok [OF this] obtain tc'
    where tc': "assign_at tc (zip (map (\<lambda>i. searchsorted_left bps (time c ! i)) ?ixl)
                                  (map (\<lambda>i. clock c ! i) ?ixl)) = Inr tc'"
      "length tc' = length tc" by blast
  have "\<forall>(i, v)\<in>set (zip (map (\<lambda>i. searchsorted_right bps (time c ! i)) ?ixr)
                          (map (\<lambda>i. clock c ! (i + 1)) ?ixr)). i < length tc'"
  proof (clarify)
    fix j v
    assume "(j, v) \<in> set (zip (map (\<lambda>i. searchsorted_right bps (time c ! i)) ?ixr)
                               (map (\<lambda>i. clock c ! (i + 1)) ?ixr))"
    then have "j \<in> set (map (\<lambda>i. searchsorted_right bps (time c ! i)) ?ixr)"
      by (rule set_zip_leftD)
    then obtain i where i: "i \<in> set ?ixr" "j = searchsorted_right bps (time c ! i)" by auto
    from where_true_zr [OF i(1)] have il: "i < length (time c) - 1" by simp
    with where_true_zr [OF i(1)] have "diff (time c) ! i = 0" by simp
    with il have "i < length (time c) - 1" "diff (time c) ! i = 0" by simp_all
    then have "time c ! i \<in> set (discontinuities (time c))" by (rule discontinuities_mem)
    with later have "\<exists>t'\<in>set bps. time c ! i < t'" by blast
    with i(2) tc(2) tc'(2) show "j < length tc'" by (simp add: searchsorted_right_less)
  qed
  from assign_at_ok [OF this] obtain tc''
    where "assign_at tc' (zip (map (\<lambda>i. searchsorted_right bps (time c ! i)) ?ixr)
                                  (map (\<lambda>i. clock c ! (i + 1)) ?ixr)) = Inr tc''"
      "length tc'' = length tc'" by blast
  with tc tc' show ?thesis by (simp add: this_corr_def Let_def)
qed

lemma sum_corr_ok:
  assumes "\<forall>c\<in>set cs. \<exists>tc. this_corr bps c = Inr tc \<and> length tc = length bps"
    and "length corr = length bps"
  shows "\<exists>corr'. sum_corr bps cs corr = Inr corr' \<and> length corr' = length bps"
  using assms
proof (induction cs arbitrary: corr)
  case Nil
  then show ?case by simp
next
  case (Cons c cs)
  from Cons.prems(1) obtain tc where tc: "this_corr bps c = Inr tc" "length tc = length bps"
    by auto
  have "length (map (\<lambda>(a, b). a + b) (zip corr tc)) = length bps"
    using tc(2) Cons.prems(2) by simp
  with Cons.IH [of "map (\<lambda>(a, b). a + b) (zip corr tc)"] Cons.prems(1) tc(1)
  show ?case by simp
qed

lemma fold_max_in: "fold max xs (a::real) \<in> insert a (set xs)"
proof (induction xs arbitrary: a)
  case Nil
  then show ?case by simp
next
  case (Cons x xs)
  from Cons [of "max x a"] show ?case by (auto simp: max_def split: if_splits)
qed

lemma fold_min_in: "fold min xs (a::real) \<in> insert a (set xs)"
proof (induction xs arbitrary: a)
  case Nil
  then show ?case by simp
next
  case (Cons x xs)
  from Cons [of "min x a"] show ?case by (auto simp: min_def split: if_splits)
qed

lemma py_max_in: "xs \<noteq> [] \<Longrightarrow> py_max xs \<in> set xs"
  using fold_max_in [of "tl xs" "hd xs"] by (cases xs) (auto simp: py_max_def)

lemma py_min_in: "xs \<noteq> [] \<Longrightarrow> py_min xs \<in> set xs"
  using fold_min_in [of "tl xs" "hd xs"] by (cases xs) (auto simp: py_min_def)

lemma sorted_hd_le: "sorted xs \<Longrightarrow> y \<in> set xs \<Longrightarrow> hd xs \<le> (y::real)"
  by (cases xs) auto

lemma sorted_le_last: "sorted xs \<Longrightarrow> y \<in> set xs \<Longrightarrow> (y::real) \<le> last xs"
  by (induction xs) (auto split: if_splits)

lemma filter_range_ends:
  fixes xs :: "real list"
  assumes srt: "sorted xs" and b: "b \<in> set xs" and e: "e \<in> set xs"
    and ne: "filter (\<lambda>t. b \<le> t \<and> t \<le> e) xs \<noteq> []"
  shows "hd (filter (\<lambda>t. b \<le> t \<and> t \<le> e) xs) = b \<and> last (filter (\<lambda>t. b \<le> t \<and> t \<le> e) xs) = e"
proof -
  let ?ys = "filter (\<lambda>t. b \<le> t \<and> t \<le> e) xs"
  have sy: "sorted ?ys" using srt by (rule sorted_wrt_filter)
  from ne obtain t where "t \<in> set ?ys" by (cases ?ys) auto
  then have "b \<le> e" by auto
  with b e have bin: "b \<in> set ?ys" and ein: "e \<in> set ?ys" by auto
  have "hd ?ys \<in> set ?ys" using ne by (rule hd_in_set)
  then have "b \<le> hd ?ys" by simp
  moreover have "last ?ys \<in> set ?ys" using ne by (rule last_in_set)
  then have "last ?ys \<le> e" by simp
  moreover have "hd ?ys \<le> b" using sy bin by (rule sorted_hd_le)
  moreover have "e \<le> last ?ys" using sy ein by (rule sorted_le_last)
  ultimately show ?thesis by simp
qed

lemma merge_True_time:
  assumes "merge clocks True = Inr r"
  shows "time r = slice (merged_mjds clocks)
            (searchsorted_left (merged_mjds clocks) (py_max (map (\<lambda>c. hd (time c)) clocks)))
            (searchsorted_right (merged_mjds clocks) (py_min (map (\<lambda>c. last (time c)) clocks)))
         \<and> clocks \<noteq> [] \<and> (\<forall>c\<in>set clocks. time c \<noteq> [])"
  using assms
  by (auto simp: merge_def Let_def ConstructedClockFile_def list_ex_iff
           split: if_splits sum.splits)

lemma merge_False_time:
  assumes "merge clocks False = Inr r"
  shows "time r = merged_mjds clocks"
  using assms
  by (auto simp: merge_def Let_def ConstructedClockFile_def split: if_splits sum.splits)

lemma merge_returns:
  assumes ne: "clocks \<noteq> []"
    and len: "\<forall>c\<in>set clocks. length (time c) = length (clock c)"
    and nonempty: "trim \<longrightarrow> (\<forall>c\<in>set clocks. time c \<noteq> [])"
    and later: "\<forall>c\<in>set clocks. \<forall>t\<in>set (discontinuities (time c)).
                  \<exists>c'\<in>set clocks. \<exists>t'\<in>set (time c'). t < t'"
  shows "\<exists>r. merge clocks trim = Inr r"
proof -
  let ?bps = "merged_mjds clocks"
  have "\<forall>c\<in>set clocks. \<exists>tc. this_corr ?bps c = Inr tc \<and> length tc = length ?bps"
  proof
    fix c assume c: "c \<in> set clocks"
    have "set (time c) \<subseteq> set ?bps" using c by (auto simp: merged_mjds_set)
    moreover have "\<forall>t\<in>set (discontinuities (time c)). \<exists>t'\<in>set ?bps. t < t'"
      using later c by (simp add: merged_mjds_set)
    ultimately show "\<exists>tc. this_corr ?bps c = Inr tc \<and> length tc = length ?bps"
      using len c by (intro this_corr_ok) auto
  qed
  from sum_corr_ok [OF this, of "replicate (length ?bps) 0"] obtain corr
    where corr: "sum_corr ?bps clocks (replicate (length ?bps) 0) = Inr corr"
      "length corr = length ?bps" by auto
  show ?thesis
  proof (cases trim)
    case True
    with nonempty have "\<not> list_ex (\<lambda>c. time c = []) clocks" by (simp add: list_ex_iff)
    with True ne corr show ?thesis
      by (simp add: merge_def Let_def ConstructedClockFile_def slice_def)
  next
    case False
    with ne corr show ?thesis by (simp add: merge_def Let_def ConstructedClockFile_def)
  qed
qed

text \<open>
  Claim C4. With \<open>trim=True\<close> a returned series has exactly the output breakpoints that
  lie between the largest first timestamp and the smallest last timestamp of the inputs,
  and when it has a sample its first and last timestamps are those two bounds. With
  \<open>trim=False\<close> the returned timestamps are all the output breakpoints, which are
  sorted and whose set is the union of the inputs' timestamps. A series is returned when
  the list is not empty, every input has as many corrections as timestamps, every input
  has a sample when \<open>trim=True\<close>, and every discontinuity is followed by a later
  timestamp of some input.
\<close>

theorem merge_trim_domain:
  "(\<forall>r. merge clocks True = Inr r \<longrightarrow>
      time r = filter (\<lambda>t. py_max (map (\<lambda>c. hd (time c)) clocks) \<le> t
                          \<and> t \<le> py_min (map (\<lambda>c. last (time c)) clocks)) (merged_mjds clocks)
      \<and> (time r \<noteq> [] \<longrightarrow> hd (time r) = py_max (map (\<lambda>c. hd (time c)) clocks)
                           \<and> last (time r) = py_min (map (\<lambda>c. last (time c)) clocks)))
   \<and> (\<forall>r. merge clocks False = Inr r \<longrightarrow> time r = merged_mjds clocks)
   \<and> sorted (merged_mjds clocks)
   \<and> set (merged_mjds clocks) = (\<Union>c\<in>set clocks. set (time c))
   \<and> (clocks \<noteq> [] \<longrightarrow> (\<forall>c\<in>set clocks. length (time c) = length (clock c)) \<longrightarrow>
        (trim \<longrightarrow> (\<forall>c\<in>set clocks. time c \<noteq> [])) \<longrightarrow>
        (\<forall>c\<in>set clocks. \<forall>t\<in>set (discontinuities (time c)).
            \<exists>c'\<in>set clocks. \<exists>t'\<in>set (time c'). t < t') \<longrightarrow>
        (\<exists>r. merge clocks trim = Inr r))"
proof (intro conjI allI impI)
  fix r assume m: "merge clocks True = Inr r"
  let ?b = "py_max (map (\<lambda>c. hd (time c)) clocks)"
  let ?e = "py_min (map (\<lambda>c. last (time c)) clocks)"
  from merge_True_time [OF m] slice_searchsorted [OF merged_mjds_sorted]
  show t: "time r = filter (\<lambda>t. ?b \<le> t \<and> t \<le> ?e) (merged_mjds clocks)" by simp
  assume ne: "time r \<noteq> []"
  from merge_True_time [OF m] have c: "clocks \<noteq> []" "\<forall>c\<in>set clocks. time c \<noteq> []" by simp_all
  from c(1) have "?b \<in> set (map (\<lambda>c. hd (time c)) clocks)" by (intro py_max_in) simp
  then obtain cb where "cb \<in> set clocks" "?b = hd (time cb)" by auto
  with c(2) have b: "?b \<in> set (merged_mjds clocks)"
    unfolding merged_mjds_set by (auto intro!: bexI [of _ cb])
  from c(1) have "?e \<in> set (map (\<lambda>c. last (time c)) clocks)" by (intro py_min_in) simp
  then obtain ce where "ce \<in> set clocks" "?e = last (time ce)" by auto
  with c(2) have e: "?e \<in> set (merged_mjds clocks)"
    unfolding merged_mjds_set by (auto intro!: bexI [of _ ce])
  from filter_range_ends [OF merged_mjds_sorted b e] ne t
  show "hd (time r) = ?b" "last (time r) = ?e" by simp_all
next
  fix r assume "merge clocks False = Inr r"
  then show "time r = merged_mjds clocks" by (rule merge_False_time)
next
  show "sorted (merged_mjds clocks)" by (rule merged_mjds_sorted)
next
  show "set (merged_mjds clocks) = (\<Union>c\<in>set clocks. set (time c))" by (rule merged_mjds_set)
next
  assume "clocks \<noteq> []" "\<forall>c\<in>set clocks. length (time c) = length (clock c)"
    "trim \<longrightarrow> (\<forall>c\<in>set clocks. time c \<noteq> [])"
    "\<forall>c\<in>set clocks. \<forall>t\<in>set (discontinuities (time c)). \<exists>c'\<in>set clocks. \<exists>t'\<in>set (time c'). t < t'"
  then show "\<exists>r. merge clocks trim = Inr r" by (rule merge_returns)
qed

theorem merge_trim_domain_witness:
  "merge [\<lparr>time = [1, 2, 2, 3], clock = [10, 20, 30, 40], filename = ''a.clk'',
            comments = None, leading_comment = None\<rparr>,
          \<lparr>time = [0, 5 / 2, 4], clock = [1, 2, 3], filename = ''b.clk'',
            comments = None, leading_comment = None\<rparr>] True
     = Inr \<lparr>time = [1, 2, 2, 5 / 2, 3], clock = [57 / 5, 109 / 5, 159 / 5, 32, 127 / 3],
            filename = ''Merged from ['' @ quoted ''a.clk'' @ '', '' @ quoted ''b.clk'' @ '']'',
            comments = None, leading_comment = None\<rparr>
   \<and> [1, 2, 2, 5 / 2, 3]
     = filter (\<lambda>t. 1 \<le> t \<and> t \<le> 3)
         (merged_mjds [\<lparr>time = [1, 2, 2, 3], clock = [10, 20, 30, 40], filename = ''a.clk'',
            comments = None, leading_comment = None\<rparr>,
          \<lparr>time = [0, 5 / 2, 4], clock = [1, 2, 3], filename = ''b.clk'',
            comments = None, leading_comment = None\<rparr>])
   \<and> merge [\<lparr>time = [1, 2, 2, 3], clock = [10, 20, 30, 40], filename = ''a.clk'',
            comments = None, leading_comment = None\<rparr>,
          \<lparr>time = [0, 5 / 2, 4], clock = [1, 2, 3], filename = ''b.clk'',
            comments = None, leading_comment = None\<rparr>] False
     = Inr \<lparr>time = [0, 1, 2, 2, 5 / 2, 3, 4],
            clock = [11, 57 / 5, 109 / 5, 159 / 5, 32, 127 / 3, 43],
            filename = ''Merged from ['' @ quoted ''a.clk'' @ '', '' @ quoted ''b.clk'' @ '']'',
            comments = None, leading_comment = None\<rparr>
   \<and> merged_mjds [\<lparr>time = [1, 2, 2, 3], clock = [10, 20, 30, 40], filename = ''a.clk'',
            comments = None, leading_comment = None\<rparr>,
          \<lparr>time = [0, 5 / 2, 4], clock = [1, 2, 3], filename = ''b.clk'',
            comments = None, leading_comment = None\<rparr>] = [0, 1, 2, 2, 5 / 2, 3, 4]"
proof -
  let ?A = "\<lparr>time = [1, 2, 2, 3], clock = [10, 20, 30, 40], filename = ''a.clk'',
            comments = None, leading_comment = None\<rparr>"
  let ?B = "\<lparr>time = [0, 5 / 2, 4], clock = [1, 2, 3], filename = ''b.clk'',
            comments = None, leading_comment = None\<rparr>"
  let ?R = "\<lparr>time = [1, 2, 2, 5 / 2, 3], clock = [57 / 5, 109 / 5, 159 / 5, 32, 127 / 3],
            filename = ''Merged from ['' @ quoted ''a.clk'' @ '', '' @ quoted ''b.clk'' @ '']'',
            comments = None, leading_comment = None\<rparr>"
  let ?U = "\<lparr>time = [0, 1, 2, 2, 5 / 2, 3, 4],
            clock = [11, 57 / 5, 109 / 5, 159 / 5, 32, 127 / 3, 43],
            filename = ''Merged from ['' @ quoted ''a.clk'' @ '', '' @ quoted ''b.clk'' @ '']'',
            comments = None, leading_comment = None\<rparr>"
  note th = merge_trim_domain [of "[?A, ?B]" True]
  have pre: "[?A, ?B] \<noteq> []" "\<forall>c\<in>set [?A, ?B]. length (time c) = length (clock c)"
    "\<forall>c\<in>set [?A, ?B]. time c \<noteq> []"
    "\<forall>c\<in>set [?A, ?B]. \<forall>t\<in>set (discontinuities (time c)).
        \<exists>c'\<in>set [?A, ?B]. \<exists>t'\<in>set (time c'). t < t'"
    by (simp_all add: discontinuities_def diff_def)
  with th obtain r where r: "merge [?A, ?B] True = Inr r" by blast
  have mt: "merge [?A, ?B] True = Inr ?R" by code_simp
  have mf: "merge [?A, ?B] False = Inr ?U" by code_simp
  have b: "py_max (map (\<lambda>c. hd (time c)) [?A, ?B]) = 1" by (simp add: py_max_def)
  have e: "py_min (map (\<lambda>c. last (time c)) [?A, ?B]) = 3" by (simp add: py_min_def)
  from th mt have "time ?R = filter (\<lambda>t. py_max (map (\<lambda>c. hd (time c)) [?A, ?B]) \<le> t
      \<and> t \<le> py_min (map (\<lambda>c. last (time c)) [?A, ?B])) (merged_mjds [?A, ?B])"
    by blast
  then have f: "[1, 2, 2, 5 / 2, 3] = filter (\<lambda>t. 1 \<le> t \<and> t \<le> 3) (merged_mjds [?A, ?B])"
    by (simp only: b e ClockFile.simps)
  from th mf have "time ?U = merged_mjds [?A, ?B]" by blast
  then have u: "merged_mjds [?A, ?B] = [0, 1, 2, 2, 5 / 2, 3, 4]" by simp
  from mt f mf u show ?thesis by blast
qed

subsection \<open>The TEMPO parser\<close>

lemma add_comment_fields [simp]:
  "mjds (add_comment st s) = mjds st"
  "clkcorrs (add_comment st s) = clkcorrs st"
  "seen_header (add_comment st s) = seen_header st"
  "mjd (add_comment st s) = mjd st"
  by (simp_all add: add_comment_def split: option.splits)

text \<open>The three outcomes of a data line.\<close>

lemma data_line_cases:
  assumes "data_line obscode st l = Inr st'"
  obtains (skipped) "st' = st\<lparr>mjd := Some (parse_mjd l)\<rparr>"
  | (comment) "st' = add_comment (st\<lparr>mjd := Some (parse_mjd l)\<rparr>) l"
  | (sample) x where "parse_mjd l = Some x"
      "st' = add_comment
         (st\<lparr>mjd := Some (parse_mjd l), mjds := mjds st @ [x],
              clkcorrs := clkcorrs st @ [stored_clkcorr (float_py (slice l 9 21)) (float_py (slice l 21 33))],
              self_comments := self_comments st @ [None]\<rparr>) (drop 50 l)"
proof (cases "obscode \<noteq> None \<and> map_option lower obscode \<noteq> csite_of l")
  case True
  with assms have "st' = st\<lparr>mjd := Some (parse_mjd l)\<rparr>"
    by (simp add: data_line_def Let_def)
  then show ?thesis by (rule skipped)
next
  case site: False
  show ?thesis
  proof (cases "parse_mjd l")
    case None
    with assms site have "st' = add_comment (st\<lparr>mjd := Some (parse_mjd l)\<rparr>) l"
      by (auto simp: data_line_def Let_def)
    then show ?thesis by (rule comment)
  next
    case (Some x)
    show ?thesis
    proof (cases "float_py (slice l 9 21) = None \<and> float_py (slice l 21 33) = None")
      case True
      with assms site Some have "st' = add_comment (st\<lparr>mjd := Some (parse_mjd l)\<rparr>) l"
        by (auto simp: data_line_def Let_def)
      then show ?thesis by (rule comment)
    next
      case False
      with assms site Some have "st' = add_comment
         (st\<lparr>mjd := Some (parse_mjd l), mjds := mjds st @ [x],
              clkcorrs := clkcorrs st @ [stored_clkcorr (float_py (slice l 9 21)) (float_py (slice l 21 33))],
              self_comments := self_comments st @ [None]\<rparr>) (drop 50 l)"
        by (auto simp: data_line_def Let_def)
      with Some show ?thesis by (rule sample)
    qed
  qed
qed

lemma data_line_seen_header: "data_line obscode st l = Inr st' \<Longrightarrow> seen_header st' = seen_header st"
  by (erule data_line_cases) simp_all

lemma data_line_mjd_bound: "data_line obscode st l = Inr st' \<Longrightarrow> mjd st' \<noteq> None"
  by (erule data_line_cases) simp_all


lemma startswith_INCLUDE_not_comment: "startswith l ''INCLUDE'' \<Longrightarrow> \<not> startswith l ''#''"
  by (cases l) (auto simp: startswith_def)

lemma process_line_INCLUDE:
  "startswith l ''INCLUDE'' \<Longrightarrow> 2 \<le> seen_header st \<Longrightarrow>
     process_line obscode st l = Inl NotImplementedError"
  using startswith_INCLUDE_not_comment [of l] by (simp add: process_line_def)

lemma process_line_data:
  "\<not> startswith l ''#'' \<Longrightarrow> 2 \<le> seen_header st \<Longrightarrow> \<not> startswith l ''INCLUDE'' \<Longrightarrow>
     process_line obscode st l = data_line obscode st l"
  by (simp add: process_line_def)

text \<open>The outcomes of one line: a comment, a header line, or one of the data line.\<close>

lemma process_line_cases:
  assumes "process_line obscode st l = Inr st'"
  obtains (comment_line) "startswith l ''#''" "st' = add_comment st l"
  | (header) "\<not> startswith l ''#''" "seen_header st < 2" "st' = st\<lparr>seen_header := seen_header st + 1\<rparr>"
  | (data) "\<not> startswith l ''#''" "2 \<le> seen_header st" "data_line obscode st l = Inr st'"
proof (cases "startswith l ''#''")
  case True
  with assms have "st' = add_comment st l" by (simp add: process_line_def)
  with True show ?thesis by (rule comment_line)
next
  case nc: False
  show ?thesis
  proof (cases "seen_header st < 2")
    case True
    with assms nc have "st' = st\<lparr>seen_header := seen_header st + 1\<rparr>"
      by (simp add: process_line_def split: if_splits)
    with nc True show ?thesis by (rule header)
  next
    case False
    with assms nc have "data_line obscode st l = Inr st'"
      by (simp add: process_line_def split: if_splits)
    with nc False show ?thesis by (intro data) simp_all
  qed
qed

lemma process_line_seen_header:
  assumes "process_line obscode st l = Inr st'"
  shows "seen_header st' = (if \<not> startswith l ''#'' \<and> seen_header st < 2 then seen_header st + 1
                            else seen_header st)"
  using assms
proof (cases rule: process_line_cases)
  case comment_line
  then show ?thesis by simp
next
  case header
  then show ?thesis by simp
next
  case data
  with data_line_seen_header [OF data(3)] show ?thesis by simp
qed

lemma tempo_loop_append:
  "tempo_loop obscode st (xs @ ys) =
     (case tempo_loop obscode st xs of Inl e \<Rightarrow> Inl e | Inr st' \<Rightarrow> tempo_loop obscode st' ys)"
  by (induction xs arbitrary: st) (auto split: sum.splits)

lemma tempo_loop_seen_header:
  "tempo_loop obscode st ls = Inr st' \<Longrightarrow> seen_header st \<le> 2 \<Longrightarrow>
     seen_header st' = min 2 (seen_header st + length (filter (\<lambda>x. \<not> startswith x ''#'') ls))"
proof (induction ls arbitrary: st)
  case Nil
  then show ?case by simp
next
  case (Cons l ls)
  from Cons.prems(1) obtain st1 where st1: "process_line obscode st l = Inr st1"
      "tempo_loop obscode st1 ls = Inr st'"
    by (auto split: sum.splits)
  note sh = process_line_seen_header [OF st1(1)]
  with Cons.prems(2) have "seen_header st1 \<le> 2" by (auto split: if_splits)
  from Cons.IH [OF st1(2) this] sh Cons.prems(2) show ?case by (auto split: if_splits)
qed

lemma process_line_mjd_bound:
  assumes "process_line obscode st l = Inr st'" and "mjds st = [] \<or> mjd st \<noteq> None"
  shows "mjds st' = [] \<or> mjd st' \<noteq> None"
  using assms(1)
proof (cases rule: process_line_cases)
  case comment_line
  with assms(2) show ?thesis by simp
next
  case header
  with assms(2) show ?thesis by simp
next
  case data
  from data_line_mjd_bound [OF data(3)] show ?thesis by simp
qed

lemma tempo_loop_mjd_bound:
  "tempo_loop obscode st ls = Inr st' \<Longrightarrow> mjds st = [] \<or> mjd st \<noteq> None \<Longrightarrow>
     mjds st' = [] \<or> mjd st' \<noteq> None"
proof (induction ls arbitrary: st)
  case Nil
  then show ?case by simp
next
  case (Cons l ls)
  from Cons.prems(1) obtain st1 where st1: "process_line obscode st l = Inr st1"
      "tempo_loop obscode st1 ls = Inr st'"
    by (auto split: sum.splits)
  from process_line_mjd_bound [OF st1(1) Cons.prems(2)] Cons.IH [OF st1(2)] show ?case by blast
qed

text \<open>
  Claim C8. A line that begins with \<open>INCLUDE\<close>, met after the two header lines, raises
  \<open>NotImplementedError\<close>: the step on such a line fails, the constructor fails with that
  error when the lines before it were read without error, and whenever two or more lines
  that are not comments precede it the constructor returns an error and no object.
\<close>

theorem tempo_include_fails:
  "startswith l ''INCLUDE'' \<Longrightarrow>
     (2 \<le> seen_header st \<longrightarrow> process_line obscode st l = Inl NotImplementedError)
   \<and> (tempo_loop obscode tempo_init pre = Inr st \<longrightarrow> seen_header st = 2 \<longrightarrow>
        TempoClockFile (Some (pre @ l # post)) fname obscode bogus = Inl NotImplementedError)
   \<and> (2 \<le> length (filter (\<lambda>x. \<not> startswith x ''#'') pre) \<longrightarrow>
        (\<exists>e. TempoClockFile (Some (pre @ l # post)) fname obscode bogus = Inl e))"
proof (intro conjI impI)
  assume inc: "startswith l ''INCLUDE''"
  {
    assume "2 \<le> seen_header st"
    with inc show "process_line obscode st l = Inl NotImplementedError"
      by (rule process_line_INCLUDE)
  }
  {
    assume "tempo_loop obscode tempo_init pre = Inr st" "seen_header st = 2"
    with process_line_INCLUDE [OF inc, of st obscode]
    show "TempoClockFile (Some (pre @ l # post)) fname obscode bogus = Inl NotImplementedError"
      by (simp add: TempoClockFile_def tempo_loop_append)
  }
  {
    assume two: "2 \<le> length (filter (\<lambda>x. \<not> startswith x ''#'') pre)"
    show "\<exists>e. TempoClockFile (Some (pre @ l # post)) fname obscode bogus = Inl e"
    proof (cases "tempo_loop obscode tempo_init pre")
      case (Inl e)
      then show ?thesis by (simp add: TempoClockFile_def tempo_loop_append)
    next
      case (Inr st1)
      from tempo_loop_seen_header [OF Inr] two have "seen_header st1 = 2"
        by (simp add: tempo_init_def)
      with process_line_INCLUDE [OF inc, of st1 obscode] Inr show ?thesis
        by (simp add: TempoClockFile_def tempo_loop_append)
    qed
  }
qed

text \<open>
  The TEMPO2 constructor slices the lists: with \<open>bogus_last_correction\<close> its last sample
  is dropped before the leading zeros are.
\<close>

lemma tempo2_finish_bogus:
  "ms \<noteq> [] \<Longrightarrow>
     time (tempo2_finish fname True (ms, clk, lc)) = dropWhile (\<lambda>x. x = 0) (butlast ms)"
  by (simp add: tempo2_finish_def Let_def dropWhile_eq_drop)

text \<open>
  Claim C10. With \<open>bogus_last_correction=True\<close> the constructor never returns an object
  for a source with an accepted sample: an error of the loop is passed on, and when the
  loop ends with a sample in \<open>mjds\<close> the statement \<open>mjd = mjd[:-1]\<close> slices the float or
  \<open>None\<close> of the last data line and raises \<open>TypeError\<close>.
\<close>

theorem tempo_bogus_last_correction_fails:
  "(\<forall>e. tempo_loop obscode tempo_init ls = Inl e \<longrightarrow>
        TempoClockFile (Some ls) fname obscode True = Inl e)
   \<and> (\<forall>st. tempo_loop obscode tempo_init ls = Inr st \<longrightarrow> mjds st \<noteq> [] \<longrightarrow>
        (\<exists>msg. TempoClockFile (Some ls) fname obscode True = Inl (TypeError msg)))"
proof (intro conjI allI impI)
  fix e assume "tempo_loop obscode tempo_init ls = Inl e"
  then show "TempoClockFile (Some ls) fname obscode True = Inl e"
    by (simp add: TempoClockFile_def)
next
  fix st assume loop: "tempo_loop obscode tempo_init ls = Inr st" and ne: "mjds st \<noteq> []"
  from tempo_loop_mjd_bound [OF loop] ne have "mjd st \<noteq> None" by (simp add: tempo_init_def)
  with loop ne show "\<exists>msg. TempoClockFile (Some ls) fname obscode True = Inl (TypeError msg)"
    by (auto simp: TempoClockFile_def tempo_finish_def split: option.splits)
qed

text \<open>
  Claim C7. Whenever a line adds a sample, the correction stored for it is the second
  field minus the first field, where a field that does not parse counts as \<open>0.0\<close> and
  \<open>818.8\<close> is taken off a first field that is greater than \<open>800.0\<close>. The line with
  the fields \<open>900.0\<close> and \<open>0.0\<close> stores \<open>-81.2\<close>.
\<close>

theorem tempo_stored_correction:
  assumes "process_line obscode st l = Inr st'" and "length (mjds st') = Suc (length (mjds st))"
  shows "clkcorrs st' = clkcorrs st @
       [(case float_py (slice l 21 33) of None \<Rightarrow> 0 | Some c \<Rightarrow> c)
        - (let c1 = (case float_py (slice l 9 21) of None \<Rightarrow> 0 | Some c \<Rightarrow> c)
           in if c1 > 800 then c1 - 818.8 else c1)]"
  using assms(1)
proof (cases rule: process_line_cases)
  case comment_line
  with assms(2) show ?thesis by simp
next
  case header
  with assms(2) show ?thesis by simp
next
  case data
  from data(3) show ?thesis
  proof (cases rule: data_line_cases)
    case skipped
    with assms(2) show ?thesis by simp
  next
    case comment
    with assms(2) show ?thesis by simp
  next
    case (sample x)
    then show ?thesis by (simp add: stored_clkcorr_def Let_def)
  qed
qed

text \<open>
  Claim C6, as the code has it. On a data line that the site filter does not skip, an
  MJD other than \<open>0\<close> that is below \<open>39000\<close> or above \<open>100000\<close> turns the line into a
  comment; an MJD of \<open>0\<close> or within the closed interval from \<open>39000\<close> to \<open>100000\<close> adds
  a sample when one of the correction fields parses. The bound \<open>100000\<close> itself is
  accepted.
\<close>

theorem tempo_mjd_range:
  assumes hdr: "seen_header st = 2" and nc: "\<not> startswith l ''#''"
    and ni: "\<not> startswith l ''INCLUDE''"
    and site: "obscode = None \<or> map_option lower obscode = csite_of l"
    and fl: "float_py (slice l 0 9) = Some x"
  shows "(x \<noteq> 0 \<and> (x < 39000 \<or> 100000 < x) \<longrightarrow>
            process_line obscode st l = Inr (add_comment (st\<lparr>mjd := Some None\<rparr>) l))
       \<and> ((x = 0 \<or> (39000 \<le> x \<and> x \<le> 100000))
            \<and> (float_py (slice l 9 21) \<noteq> None \<or> float_py (slice l 21 33) \<noteq> None) \<longrightarrow>
            (\<exists>st'. process_line obscode st l = Inr st' \<and> mjds st' = mjds st @ [x]
                  \<and> mjds st' \<noteq> mjds (add_comment (st\<lparr>mjd := Some None\<rparr>) l)))"
proof -
  have pl: "process_line obscode st l = data_line obscode st l"
    using nc hdr ni by (intro process_line_data) simp_all
  have 1: "process_line obscode st l = Inr (add_comment (st\<lparr>mjd := Some None\<rparr>) l)"
    if "x \<noteq> 0 \<and> (x < 39000 \<or> 100000 < x)"
  proof -
    from that fl have "parse_mjd l = None" by (auto simp: parse_mjd_def)
    with site show ?thesis unfolding pl by (auto simp: data_line_def Let_def)
  qed
  have 2: "\<exists>st'. process_line obscode st l = Inr st' \<and> mjds st' = mjds st @ [x]
                  \<and> mjds st' \<noteq> mjds (add_comment (st\<lparr>mjd := Some None\<rparr>) l)"
    if "(x = 0 \<or> (39000 \<le> x \<and> x \<le> 100000))
        \<and> (float_py (slice l 9 21) \<noteq> None \<or> float_py (slice l 21 33) \<noteq> None)"
  proof -
    from that fl have "parse_mjd l = Some x" by (auto simp: parse_mjd_def)
    with site that show ?thesis unfolding pl by (auto simp: data_line_def Let_def)
  qed
  from 1 2 show ?thesis by blast
qed

lemmas str_eval = float_py_def sign_def number_def is_digit_def digitpart_def digit_val_def
  strip_def rstrip_def is_space_def slice_def startswith_def split_def upper_def lower_def
  split_sep_def tempo_standard_header_def

lemmas tempo_eval = process_line_def data_line_def parse_mjd_def stored_clkcorr_def
  csite_of_def add_comment_def tempo_init_def tempo_finish_def TempoClockFile_def

lemma header_line_1:
  "seen_header st = 0 \<Longrightarrow>
     process_line obscode st ''   MJD       EECO-REF    NIST-REF NS      DATE    COMMENTS''
       = Inr (st\<lparr>seen_header := 1\<rparr>)"
  by (simp add: process_line_def str_eval)

lemma header_line_2:
  "seen_header st = 1 \<Longrightarrow>
     process_line obscode st ''=========    ========    ======== ==    ========  ========''
       = Inr (st\<lparr>seen_header := 2\<rparr>)"
  by (simp add: process_line_def str_eval)

lemma header_lines:
  "tempo_loop obscode tempo_init
     (''   MJD       EECO-REF    NIST-REF NS      DATE    COMMENTS'' #
      ''=========    ========    ======== ==    ========  ========'' # ls)
   = tempo_loop obscode (tempo_init\<lparr>seen_header := 2\<rparr>) ls"
  by (simp add: header_line_1 header_line_2 tempo_init_def)

lemma line_100000:
  "process_line None (tempo_init\<lparr>seen_header := 2\<rparr>) ''100000.00       0.000       1.000 a''
     = Inr \<lparr>seen_header = 2, mjds = [100000], clkcorrs = [1], self_comments = [Some ''''],
             self_leading_comment = None, mjd = Some (Some 100000)\<rparr>"
  by (simp add: tempo_eval str_eval)

lemma line_900:
  "process_line None (tempo_init\<lparr>seen_header := 2\<rparr>) '' 50000.00     900.000       0.000 a''
     = Inr \<lparr>seen_header = 2, mjds = [50000], clkcorrs = [- 81.2], self_comments = [Some ''''],
             self_leading_comment = None, mjd = Some (Some 50000)\<rparr>"
  by (simp add: tempo_eval str_eval)

text \<open>
  The claim C6 as stated fails: a line whose MJD field is exactly \<open>100000\<close> is a sample
  of the series that the constructor returns.
\<close>

theorem tempo_mjd_100000_accepted:
  "TempoClockFile
     (Some [''   MJD       EECO-REF    NIST-REF NS      DATE    COMMENTS'',
            ''=========    ========    ======== ==    ========  ========'',
            ''100000.00       0.000       1.000 a''])
     ''time.dat'' None False
   = Inr \<lparr>time = [100000], clock = [1], filename = ''time.dat'',
           comments = Some [Some ''''], leading_comment = None\<rparr>"
  by (simp only: TempoClockFile_def option.case header_lines) (simp add: line_100000 tempo_finish_def)

theorem tempo_mjd_range_witness:
  "process_line None (tempo_init\<lparr>seen_header := 2\<rparr>) '' 38000.00       0.000       1.000 a''
     = Inr (add_comment (tempo_init\<lparr>seen_header := 2, mjd := Some None\<rparr>)
              '' 38000.00       0.000       1.000 a'')
   \<and> (\<exists>st'. process_line None (tempo_init\<lparr>seen_header := 2\<rparr>)
               ''100000.00       0.000       1.000 a'' = Inr st'
            \<and> mjds st' = [100000])"
proof -
  let ?st = "tempo_init\<lparr>seen_header := 2\<rparr>"
  let ?l1 = "'' 38000.00       0.000       1.000 a''"
  let ?l2 = "''100000.00       0.000       1.000 a''"
  have st: "seen_header ?st = 2" "mjds ?st = []" by (simp_all add: tempo_init_def)
  have l1: "\<not> startswith ?l1 ''#''" "\<not> startswith ?l1 ''INCLUDE''"
      "float_py (slice ?l1 0 9) = Some 38000"
    by (simp_all add: str_eval)
  have l2: "\<not> startswith ?l2 ''#''" "\<not> startswith ?l2 ''INCLUDE''"
      "float_py (slice ?l2 0 9) = Some 100000" "float_py (slice ?l2 9 21) \<noteq> None"
    by (simp_all add: str_eval)
  from tempo_mjd_range [OF st(1) l1(1,2) _ l1(3), of None]
  have a: "process_line None ?st ?l1 = Inr (add_comment (?st\<lparr>mjd := Some None\<rparr>) ?l1)"
    by simp
  from tempo_mjd_range [OF st(1) l2(1,2) _ l2(3), of None] l2(4) st(2)
  have b: "\<exists>st'. process_line None ?st ?l2 = Inr st' \<and> mjds st' = [100000]"
    by auto
  from a b show ?thesis by simp
qed

theorem tempo_stored_correction_witness:
  "process_line None (tempo_init\<lparr>seen_header := 2\<rparr>) '' 50000.00     900.000       0.000 a''
     = Inr \<lparr>seen_header = 2, mjds = [50000], clkcorrs = [- 81.2], self_comments = [Some ''''],
             self_leading_comment = None, mjd = Some (Some 50000)\<rparr>
   \<and> clkcorrs \<lparr>seen_header = 2, mjds = [50000], clkcorrs = [- 81.2], self_comments = [Some ''''],
             self_leading_comment = None, mjd = Some (Some 50000)\<rparr>
     = [0 - (900 - 818.8)]"
proof -
  let ?st = "tempo_init\<lparr>seen_header := 2\<rparr>"
  let ?l = "'' 50000.00     900.000       0.000 a''"
  let ?S = "\<lparr>seen_header = 2, mjds = [50000], clkcorrs = [- 81.2], self_comments = [Some ''''],
             self_leading_comment = None, mjd = Some (Some 50000)\<rparr>"
  have p: "process_line None ?st ?l = Inr ?S" by (rule line_900)
  have n: "length (mjds ?S) = Suc (length (mjds ?st))" by (simp add: tempo_init_def)
  have f: "float_py (slice ?l 21 33) = Some 0" "float_py (slice ?l 9 21) = Some 900"
    by (simp_all add: str_eval)
  have "clkcorrs ?st = []" by (simp add: tempo_init_def)
  with tempo_stored_correction [OF p n] f have "clkcorrs ?S = [0 - (900 - 818.8)]"
    by (simp only: option.case Let_def append_Nil) simp
  with p show ?thesis by blast
qed

theorem tempo_include_fails_witness:
  "process_line None (tempo_init\<lparr>seen_header := 2\<rparr>) ''INCLUDE other.dat'' = Inl NotImplementedError
   \<and> TempoClockFile
       (Some ([''   MJD       EECO-REF    NIST-REF NS      DATE    COMMENTS'',
               ''=========    ========    ======== ==    ========  ========'']
              @ ''INCLUDE other.dat'' # ['' 50000.00     900.000       0.000 a'']))
       ''time.dat'' None False = Inl NotImplementedError"
proof -
  let ?st = "tempo_init\<lparr>seen_header := 2\<rparr>"
  let ?pre = "[''   MJD       EECO-REF    NIST-REF NS      DATE    COMMENTS'',
               ''=========    ========    ======== ==    ========  ========'']"
  have i: "startswith ''INCLUDE other.dat'' ''INCLUDE''" by (simp add: str_eval)
  have s: "2 \<le> seen_header ?st" "seen_header ?st = 2" by (simp_all add: tempo_init_def)
  have l: "tempo_loop None tempo_init ?pre = Inr ?st" 
    by (simp only: header_lines) simp
  note th = tempo_include_fails [OF i, of ?st None ?pre "['' 50000.00     900.000       0.000 a'']"
      "''time.dat''" False]
  from th s l show ?thesis by blast
qed

theorem tempo_bogus_last_correction_fails_witness:
  "TempoClockFile (Some [''no header'']) ''time.dat'' None True
     = Inl (ValueError ''TEMPO-format clock files should start with a standard header'')
   \<and> (\<exists>msg. TempoClockFile
          (Some [''   MJD       EECO-REF    NIST-REF NS      DATE    COMMENTS'',
                 ''=========    ========    ======== ==    ========  ========'',
                 '' 50000.00     900.000       0.000 a''])
          ''time.dat'' None True = Inl (TypeError msg))"
proof -
  let ?ls = "[''   MJD       EECO-REF    NIST-REF NS      DATE    COMMENTS'',
              ''=========    ========    ======== ==    ========  ========'',
              '' 50000.00     900.000       0.000 a'']"
  let ?S = "\<lparr>seen_header = 2, mjds = [50000], clkcorrs = [- 81.2], self_comments = [Some ''''],
             self_leading_comment = None, mjd = Some (Some 50000)\<rparr>"
  have a: "tempo_loop None tempo_init [''no header'']
             = Inl (ValueError ''TEMPO-format clock files should start with a standard header'')"
    by (simp add: process_line_def tempo_init_def str_eval)
  have b: "tempo_loop None tempo_init ?ls = Inr ?S"
    by (simp only: header_lines) (simp add: line_900)
  have c: "mjds ?S \<noteq> []" by simp
  from tempo_bogus_last_correction_fails [of None "[''no header'']" "''time.dat''"] a
  have 1: "TempoClockFile (Some [''no header'']) ''time.dat'' None True
     = Inl (ValueError ''TEMPO-format clock files should start with a standard header'')"
    by blast
  from tempo_bogus_last_correction_fails [of None ?ls "''time.dat''"] b c
  have 2: "\<exists>msg. TempoClockFile (Some ?ls) ''time.dat'' None True = Inl (TypeError msg)"
    by blast
  from 1 2 show ?thesis by blast
qed

subsection \<open>Reading by format name\<close>

lemma diff_Cons_Cons: "diff (x # y # ys) = (y - x) # diff (y # ys)"
  by (simp add: diff_def)

lemma diff_nonneg_sorted: "list_all (\<lambda>d. d \<ge> 0) (diff xs) \<longleftrightarrow> sorted xs"
proof (induction xs rule: induct_list012)
  case 1
  then show ?case by (simp add: diff_def)
next
  case (2 x)
  then show ?case by (simp add: diff_def)
next
  case (3 x y zs)
  then show ?case by (simp only: diff_Cons_Cons list.pred_inject sorted2) simp
qed

lemma ClockFile_formats_dom: "dom (ClockFile_formats fs) = {''tempo'', ''tempo2''}"
  by (auto simp: ClockFile_formats_def)

text \<open>
  Claim C5. \<open>read\<close> fails with the "not defined" error for a format name other than the
  two registered ones. For a registered format whose constructor returns a series, it
  fails with the "out of order" error when the timestamps are not sorted, and returns
  that series when they are. The registry holds the TEMPO and the TEMPO2 constructors.
\<close>

theorem read_dispatch:
  "(format \<noteq> ''tempo'' \<longrightarrow> format \<noteq> ''tempo2'' \<longrightarrow>
      read fs fname format kw = Inl (ValueError (not_defined_msg format)))
   \<and> (\<forall>cls r. ClockFile_formats fs format = Some cls \<longrightarrow> cls fname kw = Inr r \<longrightarrow>
        \<not> sorted (time r) \<longrightarrow>
        read fs fname format kw = Inl (ValueError (out_of_order_msg fname format)))
   \<and> (\<forall>cls r. ClockFile_formats fs format = Some cls \<longrightarrow> cls fname kw = Inr r \<longrightarrow>
        sorted (time r) \<longrightarrow> read fs fname format kw = Inr r)
   \<and> ClockFile_formats fs ''tempo''
        = Some (\<lambda>fname kw. TempoClockFile (fs fname) fname (kw_obscode kw) (kw_bogus_last_correction kw))
   \<and> ClockFile_formats fs ''tempo2''
        = Some (\<lambda>fname kw. Tempo2ClockFile (fs fname) fname (kw_bogus_last_correction kw))"
proof (intro conjI allI impI)
  assume "format \<noteq> ''tempo''" "format \<noteq> ''tempo2''"
  then have "ClockFile_formats fs format = None" by (simp add: ClockFile_formats_def)
  then show "read fs fname format kw = Inl (ValueError (not_defined_msg format))"
    by (simp add: read_def)
next
  fix cls r
  assume "ClockFile_formats fs format = Some cls" "cls fname kw = Inr r" "\<not> sorted (time r)"
  then show "read fs fname format kw = Inl (ValueError (out_of_order_msg fname format))"
    by (simp add: read_def diff_nonneg_sorted)
next
  fix cls r
  assume "ClockFile_formats fs format = Some cls" "cls fname kw = Inr r" "sorted (time r)"
  then show "read fs fname format kw = Inr r"
    by (simp add: read_def diff_nonneg_sorted)
next
  show "ClockFile_formats fs ''tempo''
        = Some (\<lambda>fname kw. TempoClockFile (fs fname) fname (kw_obscode kw) (kw_bogus_last_correction kw))"
    by (simp add: ClockFile_formats_def)
next
  show "ClockFile_formats fs ''tempo2''
        = Some (\<lambda>fname kw. Tempo2ClockFile (fs fname) fname (kw_bogus_last_correction kw))"
    by (simp add: ClockFile_formats_def)
qed

lemma line_50001:
  "seen_header st = 2 \<Longrightarrow>
   process_line None st '' 50001.00       0.000       1.000 a''
     = Inr (add_comment (st\<lparr>mjd := Some (Some 50001), mjds := mjds st @ [50001],
              clkcorrs := clkcorrs st @ [1], self_comments := self_comments st @ [None]\<rparr>) '''')"
  by (simp add: process_line_def data_line_def parse_mjd_def stored_clkcorr_def csite_of_def str_eval)

lemma line_50000:
  "seen_header st = 2 \<Longrightarrow>
   process_line None st '' 50000.00       0.000       2.000 a''
     = Inr (add_comment (st\<lparr>mjd := Some (Some 50000), mjds := mjds st @ [50000],
              clkcorrs := clkcorrs st @ [2], self_comments := self_comments st @ [None]\<rparr>) '''')"
  by (simp add: process_line_def data_line_def parse_mjd_def stored_clkcorr_def csite_of_def str_eval)

lemma tempo_file_descending:
  "TempoClockFile
     (Some [''   MJD       EECO-REF    NIST-REF NS      DATE    COMMENTS'',
            ''=========    ========    ======== ==    ========  ========'',
            '' 50001.00       0.000       1.000 a'',
            '' 50000.00       0.000       2.000 a'']) fname None False
   = Inr \<lparr>time = [50001, 50000], clock = [1, 2], filename = fname,
           comments = Some [Some '''', Some ''''], leading_comment = None\<rparr>"
  by (simp only: TempoClockFile_def option.case header_lines)
     (simp add: line_50001 line_50000 add_comment_def tempo_init_def tempo_finish_def rstrip_def)

lemma tempo_file_ascending:
  "TempoClockFile
     (Some [''   MJD       EECO-REF    NIST-REF NS      DATE    COMMENTS'',
            ''=========    ========    ======== ==    ========  ========'',
            '' 50000.00       0.000       2.000 a'',
            '' 50001.00       0.000       1.000 a'']) fname None False
   = Inr \<lparr>time = [50000, 50001], clock = [2, 1], filename = fname,
           comments = Some [Some '''', Some ''''], leading_comment = None\<rparr>"
  by (simp only: TempoClockFile_def option.case header_lines)
     (simp add: line_50001 line_50000 add_comment_def tempo_init_def tempo_finish_def rstrip_def)

theorem read_dispatch_witness:
  "read (\<lambda>f. if f = ''down.dat''
              then Some [''   MJD       EECO-REF    NIST-REF NS      DATE    COMMENTS'',
                         ''=========    ========    ======== ==    ========  ========'',
                         '' 50001.00       0.000       1.000 a'',
                         '' 50000.00       0.000       2.000 a'']
              else Some [''   MJD       EECO-REF    NIST-REF NS      DATE    COMMENTS'',
                         ''=========    ========    ======== ==    ========  ========'',
                         '' 50000.00       0.000       2.000 a'',
                         '' 50001.00       0.000       1.000 a''])
        ''down.dat'' ''tempo'' \<lparr>kw_obscode = None, kw_bogus_last_correction = False\<rparr>
     = Inl (ValueError (out_of_order_msg ''down.dat'' ''tempo''))
   \<and> read (\<lambda>f. if f = ''down.dat''
              then Some [''   MJD       EECO-REF    NIST-REF NS      DATE    COMMENTS'',
                         ''=========    ========    ======== ==    ========  ========'',
                         '' 50001.00       0.000       1.000 a'',
                         '' 50000.00       0.000       2.000 a'']
              else Some [''   MJD       EECO-REF    NIST-REF NS      DATE    COMMENTS'',
                         ''=========    ========    ======== ==    ========  ========'',
                         '' 50000.00       0.000       2.000 a'',
                         '' 50001.00       0.000       1.000 a''])
        ''up.dat'' ''tempo'' \<lparr>kw_obscode = None, kw_bogus_last_correction = False\<rparr>
     = Inr \<lparr>time = [50000, 50001], clock = [2, 1], filename = ''up.dat'',
             comments = Some [Some '''', Some ''''], leading_comment = None\<rparr>
   \<and> read (\<lambda>f. None) ''up.dat'' ''tempo3'' \<lparr>kw_obscode = None, kw_bogus_last_correction = False\<rparr>
     = Inl (ValueError (not_defined_msg ''tempo3''))"
proof -
  let ?down = "[''   MJD       EECO-REF    NIST-REF NS      DATE    COMMENTS'',
                ''=========    ========    ======== ==    ========  ========'',
                '' 50001.00       0.000       1.000 a'',
                '' 50000.00       0.000       2.000 a'']"
  let ?up = "[''   MJD       EECO-REF    NIST-REF NS      DATE    COMMENTS'',
              ''=========    ========    ======== ==    ========  ========'',
              '' 50000.00       0.000       2.000 a'',
              '' 50001.00       0.000       1.000 a'']"
  let ?fs = "\<lambda>f. if f = ''down.dat'' then Some ?down else Some ?up"
  let ?kw = "\<lparr>kw_obscode = None, kw_bogus_last_correction = False\<rparr>"
  let ?cls = "\<lambda>fname kw. TempoClockFile (?fs fname) fname (kw_obscode kw) (kw_bogus_last_correction kw)"
  let ?rd = "\<lparr>time = [50001, 50000], clock = [1, 2], filename = ''down.dat'',
           comments = Some [Some '''', Some ''''], leading_comment = None\<rparr>"
  let ?ru = "\<lparr>time = [50000, 50001], clock = [2, 1], filename = ''up.dat'',
           comments = Some [Some '''', Some ''''], leading_comment = None\<rparr>"
  note th = read_dispatch [of "''tempo''" ?fs _ ?kw]
  have reg: "ClockFile_formats ?fs ''tempo'' = Some ?cls" using th by blast
  have d: "?cls ''down.dat'' ?kw = Inr ?rd" by (simp add: tempo_file_descending)
  have u: "?cls ''up.dat'' ?kw = Inr ?ru" by (simp add: tempo_file_ascending)
  have nd: "\<not> sorted (time ?rd)" by simp
  have su: "sorted (time ?ru)" by simp
  from read_dispatch [of "''tempo''" ?fs "''down.dat''" ?kw] reg d nd
  have 1: "read ?fs ''down.dat'' ''tempo'' ?kw = Inl (ValueError (out_of_order_msg ''down.dat'' ''tempo''))"
    by blast
  from read_dispatch [of "''tempo''" ?fs "''up.dat''" ?kw] reg u su
  have 2: "read ?fs ''up.dat'' ''tempo'' ?kw = Inr ?ru" by blast
  from read_dispatch [of "''tempo3''" "\<lambda>f. None" "''up.dat''" ?kw]
  have 3: "read (\<lambda>f. None) ''up.dat'' ''tempo3'' ?kw = Inl (ValueError (not_defined_msg ''tempo3''))"
    by simp
  from 1 2 3 show ?thesis by blast
qed


subsection \<open>The site code of the TEMPO writer\<close>

text \<open>
  Claim C9, at the input where the code departs from it. The check of the site code
  rejects a value that is not a string, the empty string and a string of two
  characters; it accepts the string that holds only a newline, which is not printable,
  and writes a data line with it.
\<close>

theorem write_tempo_obscode_check:
  "write_tempo_clock_file format_f date
      \<lparr>time = [50000], clock = [1], filename = ''a.clk'', comments = None, leading_comment = None\<rparr>
      (PyStr [CHR 0x0A]) None
     = Inr (tempo_standard_header @ format_f 9 2 50000 @ format_f 12 3 0 @ format_f 12 3 1
            @ '' '' @ [CHR 0x0A] @ ''    '' @ date 50000 @ [CHR 0x0A])
   \<and> write_tempo_clock_file format_f date self (PyStr ''ab'') extra_comments
     = Inl (ValueError ''Invalid TEMPO obscode {obscode!r}, should be one printable character'')
   \<and> write_tempo_clock_file format_f date self (PyStr '''') extra_comments
     = Inl (ValueError ''Invalid TEMPO obscode {obscode!r}, should be one printable character'')
   \<and> write_tempo_clock_file format_f date self PyNone extra_comments
     = Inl (ValueError ''Invalid TEMPO obscode {obscode!r}, should be one printable character'')"
  by (simp add: write_tempo_clock_file_def tempo_data_line_def)

end
